theory Spec2Isabelle
  imports Complex_Main "HOL-Library.Char_ord" "HOL-Library.List_Lexorder"
begin

section \<open>Python values, errors and dictionaries\<close>

text \<open>
  The generator is a Python script. Its floats are modelled as real numbers (exact
  arithmetic), its integers as \<open>int\<close> or \<open>nat\<close>, its strings as \<open>string\<close>. Every
  implicit raise of the script is a branch of the model: a division by zero, a missing
  dictionary key, and an argument that the sampling library rejects.
\<close>

datatype py_error = ZeroDivisionError | KeyError | ValueError

datatype pyval = PyStr string | PyInt int | PyFloat real | PyBool bool

definition bind_err :: "py_error + 'a \<Rightarrow> ('a \<Rightarrow> py_error + 'b) \<Rightarrow> py_error + 'b" where
  "bind_err m f = (case m of Inl e \<Rightarrow> Inl e | Inr v \<Rightarrow> f v)"

definition py_div :: "real \<Rightarrow> real \<Rightarrow> py_error + real" where
  "py_div a b = (if b = 0 then Inl ZeroDivisionError else Inr (a / b))"

definition dict_get :: "(string \<times> 'v) list \<Rightarrow> string \<Rightarrow> py_error + 'v" where
  "dict_get d k = (case map_of d k of None \<Rightarrow> Inl KeyError | Some v \<Rightarrow> Inr v)"

text \<open>\<open>round(x, ndigits)\<close> on a float: to the nearest multiple of \<open>10 ^ -ndigits\<close>, a tie
  going to the even neighbour.\<close>

definition round_half_even :: "real \<Rightarrow> int" where
  "round_half_even y =
     (let f = \<lfloor>y\<rfloor>; d = y - of_int f
      in if d < 1 / 2 then f else if 1 / 2 < d then f + 1 else if even f then f else f + 1)"

definition py_round :: "real \<Rightarrow> nat \<Rightarrow> real" where
  "py_round x ndigits = of_int (round_half_even (x * 10 ^ ndigits)) / 10 ^ ndigits"

subsection \<open>Formatting integers\<close>

definition digit_char :: "nat \<Rightarrow> char" where
  "digit_char n = ''0123456789'' ! n"

function str_nat :: "nat \<Rightarrow> string" where
  "str_nat n = (if n < 10 then [digit_char n] else str_nat (n div 10) @ [digit_char (n mod 10)])"
  by pat_completeness auto
termination
  by (relation "measure id") auto

declare str_nat.simps [simp del]

text \<open>The format specifications \<open>:06d\<close>, \<open>:05d\<close>, \<open>%Y\<close>, \<open>%m\<close> and \<open>%d\<close>: decimal digits,
  padded on the left with zeros up to a minimum width.\<close>

definition format_0d :: "nat \<Rightarrow> nat \<Rightarrow> string" where
  "format_0d width n = replicate (width - length (str_nat n)) (CHR ''0'') @ str_nat n"

section \<open>Calendar dates\<close>

text \<open>The operations of \<open>datetime\<close> and \<open>pandas.date_range\<close> that the generator calls, on
  the proleptic Gregorian calendar.\<close>

record date =
  year :: nat
  month :: nat
  day :: nat

definition is_leap :: "nat \<Rightarrow> bool" where
  "is_leap y \<longleftrightarrow> y mod 4 = 0 \<and> (y mod 100 \<noteq> 0 \<or> y mod 400 = 0)"

definition days_before_year :: "nat \<Rightarrow> nat" where
  "days_before_year y = (y - 1) * 365 + (y - 1) div 4 - (y - 1) div 100 + (y - 1) div 400"

definition days_in_month :: "nat \<Rightarrow> nat \<Rightarrow> nat" where
  "days_in_month y m =
     (if m = 2 \<and> is_leap y then 29
      else [0, 31, 28, 31, 30, 31, 30, 31, 31, 30, 31, 30, 31] ! m)"

definition days_before_month :: "nat \<Rightarrow> nat \<Rightarrow> nat" where
  "days_before_month y m =
     [0, 0, 31, 59, 90, 120, 151, 181, 212, 243, 273, 304, 334] ! m
       + (if m > 2 \<and> is_leap y then 1 else 0)"

definition toordinal :: "date \<Rightarrow> nat" where
  "toordinal d = days_before_year (year d) + days_before_month (year d) (month d) + day d"

definition weekday :: "date \<Rightarrow> nat" where
  "weekday d = (toordinal d + 6) mod 7"

definition tm_yday :: "date \<Rightarrow> nat" where
  "tm_yday d = days_before_month (year d) (month d) + day d"

definition days_between :: "date \<Rightarrow> date \<Rightarrow> int" where
  "days_between a b = int (toordinal a) - int (toordinal b)"

definition isoweek1monday :: "nat \<Rightarrow> int" where
  "isoweek1monday y =
     (let firstday = days_before_year y + 1;
          firstweekday = (firstday + 6) mod 7;
          week1monday = int firstday - int firstweekday
      in if firstweekday > 3 then week1monday + 7 else week1monday)"

definition iso_week :: "date \<Rightarrow> int" where
  "iso_week d =
     (let today = int (toordinal d);
          week = (today - isoweek1monday (year d)) div 7
      in if week < 0 then (today - isoweek1monday (year d - 1)) div 7 + 1
         else if week \<ge> 52 \<and> today \<ge> isoweek1monday (year d + 1) then 1
         else week + 1)"

definition strftime_Ymd :: "date \<Rightarrow> string" where
  "strftime_Ymd d =
     format_0d 4 (year d) @ ''-'' @ format_0d 2 (month d) @ ''-'' @ format_0d 2 (day d)"

definition strftime_A :: "date \<Rightarrow> string" where
  "strftime_A d =
     [''Monday'', ''Tuesday'', ''Wednesday'', ''Thursday'', ''Friday'', ''Saturday'',
      ''Sunday''] ! weekday d"

definition next_day :: "date \<Rightarrow> date" where
  "next_day d =
     (if day d < days_in_month (year d) (month d) then d\<lparr>day := day d + 1\<rparr>
      else if month d < 12 then d\<lparr>month := month d + 1, day := 1\<rparr>
      else \<lparr>year = year d + 1, month = 1, day = 1\<rparr>)"

primrec days_from :: "date \<Rightarrow> nat \<Rightarrow> date list" where
  "days_from d 0 = []"
| "days_from d (Suc n) = d # days_from (next_day d) n"

text \<open>\<open>pd.date_range(start, end, freq='D')\<close>: the consecutive days from \<open>start\<close> to \<open>end\<close>,
  both included.\<close>

definition date_range :: "date \<Rightarrow> date \<Rightarrow> date list" where
  "date_range a b =
     (if toordinal b < toordinal a then []
      else days_from a (toordinal b - toordinal a + 1))"

section \<open>The random number generator\<close>

text \<open>
  \<open>numpy.random\<close> is a library, not part of the repository: its samplers are parameters
  of the model. Each sampler takes the state of the global generator and returns the
  value drawn together with the next state; \<open>np_seed\<close> gives the state that
  \<open>np.random.seed\<close> installs, which depends on the seed alone.
\<close>

record 'g np_random =
  np_seed :: "nat \<Rightarrow> 'g"
  np_poisson :: "real \<Rightarrow> 'g \<Rightarrow> int \<times> 'g"
  np_choice :: "string list \<Rightarrow> real list option \<Rightarrow> 'g \<Rightarrow> string \<times> 'g"
  np_uniform :: "real \<Rightarrow> real \<Rightarrow> 'g \<Rightarrow> real \<times> 'g"
  np_random :: "'g \<Rightarrow> real \<times> 'g"
  np_randint :: "int \<Rightarrow> int \<Rightarrow> 'g \<Rightarrow> int \<times> 'g"
  np_normal :: "real \<Rightarrow> real \<Rightarrow> 'g \<Rightarrow> real \<times> 'g"

text \<open>The argument checks of the library: a call with a rejected argument raises
  \<open>ValueError\<close>.\<close>

definition random_poisson :: "'g np_random \<Rightarrow> real \<Rightarrow> 'g \<Rightarrow> py_error + (int \<times> 'g)" where
  "random_poisson S lam g = (if lam < 0 then Inl ValueError else Inr (np_poisson S lam g))"

definition random_choice ::
  "'g np_random \<Rightarrow> string list \<Rightarrow> real list option \<Rightarrow> 'g \<Rightarrow> py_error + (string \<times> 'g)" where
  "random_choice S a p g =
     (if a = [] then Inl ValueError
      else case p of
        None \<Rightarrow> Inr (np_choice S a p g)
      | Some ws \<Rightarrow>
          if length ws \<noteq> length a \<or> list_ex (\<lambda>w. w < 0) ws \<or> sum_list ws \<noteq> 1
          then Inl ValueError else Inr (np_choice S a p g))"

definition random_randint :: "'g np_random \<Rightarrow> int \<Rightarrow> int \<Rightarrow> 'g \<Rightarrow> py_error + (int \<times> 'g)" where
  "random_randint S low high g = (if low \<ge> high then Inl ValueError else Inr (np_randint S low high g))"

text \<open>What the library documents about the values drawn: a choice is an element of the
  list, a uniform draw lies between its bounds, \<open>random\<close> is in \<open>[0, 1)\<close>, \<open>randint\<close> is in
  \<open>[low, high)\<close> and a Poisson draw is not negative. Nothing is assumed of a normal draw.\<close>

definition sampler_ok :: "'g np_random \<Rightarrow> bool" where
  "sampler_ok S \<longleftrightarrow>
     (\<forall>a p g. a \<noteq> [] \<longrightarrow> fst (np_choice S a p g) \<in> set a) \<and>
     (\<forall>lo hi g. lo \<le> hi \<longrightarrow> lo \<le> fst (np_uniform S lo hi g) \<and> fst (np_uniform S lo hi g) \<le> hi) \<and>
     (\<forall>g. 0 \<le> fst (np_random S g) \<and> fst (np_random S g) < 1) \<and>
     (\<forall>lo hi g. lo < hi \<longrightarrow> lo \<le> fst (np_randint S lo hi g) \<and> fst (np_randint S lo hi g) < hi) \<and>
     (\<forall>lam g. 0 \<le> lam \<longrightarrow> 0 \<le> fst (np_poisson S lam g))"

text \<open>The part of this contract that the sampling and the division by the revenue rest
  on. It bounds a uniform draw from below only, so it lets the discount be the whole
  revenue, or more.\<close>

definition sampler_weak_ok :: "'g np_random \<Rightarrow> bool" where
  "sampler_weak_ok S \<longleftrightarrow>
     (\<forall>a p g. a \<noteq> [] \<longrightarrow> fst (np_choice S a p g) \<in> set a) \<and>
     (\<forall>lo hi g. lo \<le> hi \<longrightarrow> lo \<le> fst (np_uniform S lo hi g)) \<and>
     (\<forall>lo hi g. lo < hi \<longrightarrow> lo \<le> fst (np_randint S lo hi g) \<and> fst (np_randint S lo hi g) < hi)"

section \<open>Business data parameters\<close>

definition start_date :: date where
  "start_date = \<lparr>year = 2022, month = 1, day = 1\<rparr>"

definition end_date :: date where
  "end_date = \<lparr>year = 2024, month = 12, day = 31\<rparr>"

definition dates :: "date list" where
  "dates = date_range start_date end_date"

definition products :: "string list" where
  "products = [''Laptop'', ''Desktop'', ''Monitor'', ''Keyboard'', ''Mouse'', ''Printer'',
               ''Scanner'', ''Tablet'']"

definition regions :: "string list" where
  "regions = [''North America'', ''Europe'', ''Asia Pacific'', ''South America'', ''Africa'']"

definition sales_reps :: "string list" where
  "sales_reps = [''John Smith'', ''Sarah Johnson'', ''Mike Wilson'', ''Lisa Brown'',
                 ''Tom Davis'', ''Maria Garcia'', ''David Chen'', ''Emma Thompson'',
                 ''Carlos Rodriguez'', ''Anna Petrov'']"

definition customers :: "string list" where
  "customers = map (\<lambda>i. ''CUST_'' @ format_0d 5 i) [1..<1001]"

definition base_prices :: "(string \<times> real) list" where
  "base_prices =
     [(''Laptop'', 800), (''Desktop'', 600), (''Monitor'', 300), (''Keyboard'', 50),
      (''Mouse'', 25), (''Printer'', 150), (''Scanner'', 200), (''Tablet'', 400)]"

definition product_categories :: "(string \<times> string) list" where
  "product_categories =
     [(''Laptop'', ''Electronics''), (''Desktop'', ''Electronics''),
      (''Monitor'', ''Electronics''), (''Tablet'', ''Electronics''),
      (''Keyboard'', ''Accessories''), (''Mouse'', ''Accessories''),
      (''Printer'', ''Peripherals''), (''Scanner'', ''Peripherals'')]"

definition region_multipliers :: "(string \<times> real) list" where
  "region_multipliers =
     [(''North America'', 1.2), (''Europe'', 1.1), (''Asia Pacific'', 0.9),
      (''South America'', 0.8), (''Africa'', 0.7)]"

definition rep_performance :: "(string \<times> real) list" where
  "rep_performance =
     [(''John Smith'', 1.15), (''Sarah Johnson'', 1.12), (''Mike Wilson'', 1.08),
      (''Lisa Brown'', 1.05), (''Tom Davis'', 1.03), (''Maria Garcia'', 1.10),
      (''David Chen'', 1.07), (''Emma Thompson'', 1.06), (''Carlos Rodriguez'', 1.04),
      (''Anna Petrov'', 1.09)]"

definition region_delivery_days :: "(string \<times> int \<times> int) list" where
  "region_delivery_days =
     [(''North America'', (1, 5)), (''Europe'', (3, 8)), (''Asia Pacific'', (5, 12)),
      (''South America'', (7, 15)), (''Africa'', (10, 20))]"

section \<open>The number of transactions of a day\<close>

definition seasonal_factor :: "date \<Rightarrow> real" where
  "seasonal_factor date =
     (let day_of_year = tm_yday date;
          seasonal_factor = 1 + 0.3 * sin (2 * pi * real day_of_year / 365)
      in if month date \<in> set [11, 12] then seasonal_factor * 1.8
         else if month date \<in> set [6, 7] then seasonal_factor * 1.3
         else if month date \<in> set [1, 2] then seasonal_factor * 0.7
         else seasonal_factor)"

definition daily_factor :: "date \<Rightarrow> real" where
  "daily_factor date = (if weekday date < 5 then 1.2 else 0.8)"

definition growth_factor :: "date \<Rightarrow> real" where
  "growth_factor date =
     (let days_since_start = days_between date start_date
      in 1 + (real_of_int days_since_start / 365) * 0.15)"

definition base_transactions :: real where
  "base_transactions = 15"

definition poisson_mean :: "date \<Rightarrow> real" where
  "poisson_mean date =
     base_transactions * seasonal_factor date * daily_factor date * growth_factor date"

section \<open>One transaction\<close>

text \<open>The local variables of one pass of the inner loop that the record is built from.\<close>

record txn =
  product :: string
  category :: string
  region :: string
  sales_rep :: string
  customer_id :: string
  rep_factor :: real
  quantity :: int
  unit_price :: real
  revenue :: real
  cost :: real
  profit :: real
  profit_margin :: real
  discount_percent :: real
  discount_amount :: real
  final_revenue :: real
  final_profit :: real
  final_margin :: real
  shipping_cost :: real
  tax_amount :: real
  customer_satisfaction :: real
  delivery_days :: int
  is_returned :: bool

text \<open>The body of the inner loop up to the creation of the record, in the order of the
  source: every draw takes the generator state left by the draw before it.\<close>

definition sample_transaction :: "'g np_random \<Rightarrow> 'g \<Rightarrow> py_error + (txn \<times> 'g)" where
  "sample_transaction S g0 =
     bind_err (random_choice S products None g0) (\<lambda>(product, g1).
     bind_err (dict_get product_categories product) (\<lambda>category.
     bind_err (random_choice S regions (Some [0.35, 0.25, 0.20, 0.15, 0.05]) g1) (\<lambda>(region, g2).
     let rep_weights = [0.15, 0.12, 0.11, 0.10, 0.10, 0.09, 0.09, 0.08, 0.08, 0.08] in
     bind_err (random_choice S sales_reps (Some rep_weights) g2) (\<lambda>(sales_rep, g3).
     bind_err (random_choice S customers None g3) (\<lambda>(customer_id, g4).
     bind_err (dict_get base_prices product) (\<lambda>base_price.
     bind_err (dict_get region_multipliers region) (\<lambda>region_multiplier.
     bind_err (dict_get rep_performance sales_rep) (\<lambda>rep_factor.
     let (price_variation, g5) = np_uniform S 0.85 1.25 g4;
         unit_price = base_price * region_multiplier * rep_factor * price_variation;
         (bulk, g6) = np_random S g5 in
     bind_err (if bulk < 0.1 then random_randint S 5 20 g6 else random_randint S 1 4 g6)
       (\<lambda>(quantity, g7).
     let revenue = unit_price * of_int quantity;
         (cost_ratio, g8) = np_uniform S 0.4 0.7 g7;
         cost = revenue * cost_ratio;
         profit = revenue - cost in
     bind_err (py_div profit revenue) (\<lambda>profit_ratio.
     let profit_margin = profit_ratio * 100;
         (discounted, g9) = np_random S g8;
         (discount_percent, discount_amount, g10) =
           (if discounted < 0.2
            then let (discount_percent, g) = np_uniform S 5 25 g9
                 in (discount_percent, revenue * (discount_percent / 100), g)
            else (0, 0, g9));
         final_revenue = revenue - discount_amount;
         final_profit = final_revenue - cost in
     bind_err (if final_revenue > 0
               then bind_err (py_div final_profit final_revenue) (\<lambda>r. Inr (r * 100))
               else Inr 0) (\<lambda>final_margin.
     let (shipping_cost, g11) =
           (if region \<noteq> ''North America'' then np_uniform S 5 25 g10
            else np_uniform S 2 10 g10);
         tax_rate = (if region = ''North America'' then 0.08 else 0.15);
         tax_amount = final_revenue * tax_rate;
         base_satisfaction = 3.5;
         satisfaction_boost = (final_margin / 100) * 0.5 + (rep_factor - 1) * 2;
         (noise, g12) = np_normal S 0 0.3 g11;
         customer_satisfaction =
           min 5.0 (max 1.0 (base_satisfaction + satisfaction_boost + noise)) in
     bind_err (dict_get region_delivery_days region) (\<lambda>(min_days, max_days).
     bind_err (random_randint S min_days (max_days + 1) g12) (\<lambda>(delivery_days, g13).
     let return_probability = max 0.01 (0.15 - (customer_satisfaction - 3) * 0.03);
         (returned, g14) = np_random S g13;
         is_returned = (returned < return_probability) in
     Inr (\<lparr>product = product, category = category, region = region,
            sales_rep = sales_rep, customer_id = customer_id, rep_factor = rep_factor,
            quantity = quantity, unit_price = unit_price, revenue = revenue, cost = cost,
            profit = profit, profit_margin = profit_margin,
            discount_percent = discount_percent, discount_amount = discount_amount,
            final_revenue = final_revenue, final_profit = final_profit,
            final_margin = final_margin, shipping_cost = shipping_cost,
            tax_amount = tax_amount, customer_satisfaction = customer_satisfaction,
            delivery_days = delivery_days, is_returned = is_returned\<rparr>, g14))))))))))))))"

text \<open>The record: a dictionary whose keys keep their order of insertion.\<close>

type_synonym row = "(string \<times> pyval) list"

definition create_record :: "nat \<Rightarrow> date \<Rightarrow> txn \<Rightarrow> row" where
  "create_record order_id date t =
     [(''Order_ID'', PyStr (''ORD_'' @ format_0d 6 order_id)),
      (''Date'', PyStr (strftime_Ymd date)),
      (''Customer_ID'', PyStr (customer_id t)),
      (''Product'', PyStr (product t)),
      (''Category'', PyStr (category t)),
      (''Region'', PyStr (region t)),
      (''Sales_Rep'', PyStr (sales_rep t)),
      (''Quantity'', PyInt (quantity t)),
      (''Unit_Price'', PyFloat (py_round (unit_price t) 2)),
      (''Revenue'', PyFloat (py_round (revenue t) 2)),
      (''Cost'', PyFloat (py_round (cost t) 2)),
      (''Profit'', PyFloat (py_round (profit t) 2)),
      (''Profit_Margin'', PyFloat (py_round (profit_margin t) 2)),
      (''Discount_Percent'', PyFloat (py_round (discount_percent t) 2)),
      (''Discount_Amount'', PyFloat (py_round (discount_amount t) 2)),
      (''Final_Revenue'', PyFloat (py_round (final_revenue t) 2)),
      (''Final_Profit'', PyFloat (py_round (final_profit t) 2)),
      (''Final_Margin'', PyFloat (py_round (final_margin t) 2)),
      (''Shipping_Cost'', PyFloat (py_round (shipping_cost t) 2)),
      (''Tax_Amount'', PyFloat (py_round (tax_amount t) 2)),
      (''Customer_Satisfaction'', PyFloat (py_round (customer_satisfaction t) 2)),
      (''Delivery_Days'', PyInt (delivery_days t)),
      (''Is_Returned'', PyBool (is_returned t)),
      (''Year'', PyInt (int (year date))),
      (''Month'', PyInt (int (month date))),
      (''Quarter'', PyStr (''Q'' @ str_nat ((month date - 1) div 3 + 1))),
      (''Day_of_Week'', PyStr (strftime_A date)),
      (''Week_Number'', PyInt (iso_week date))]"

section \<open>The generator\<close>

text \<open>The state of the loops: the records so far, the next order number and the state of
  the random number generator.\<close>

type_synonym 'g gen_state = "row list \<times> nat \<times> 'g"

fun transactions_loop :: "'g np_random \<Rightarrow> date \<Rightarrow> nat \<Rightarrow> 'g gen_state \<Rightarrow> py_error + 'g gen_state" where
  "transactions_loop S date 0 st = Inr st"
| "transactions_loop S date (Suc n) (data, order_id, g) =
     bind_err (sample_transaction S g) (\<lambda>(t, g').
       transactions_loop S date n (data @ [create_record order_id date t], order_id + 1, g'))"

definition num_transactions :: "'g np_random \<Rightarrow> date \<Rightarrow> 'g \<Rightarrow> py_error + (int \<times> 'g)" where
  "num_transactions S date g =
     bind_err (random_poisson S (poisson_mean date) g) (\<lambda>(k, g'). Inr (max 1 k, g'))"

fun dates_loop :: "'g np_random \<Rightarrow> date list \<Rightarrow> 'g gen_state \<Rightarrow> py_error + 'g gen_state" where
  "dates_loop S [] st = Inr st"
| "dates_loop S (date # ds) (data, order_id, g) =
     bind_err (num_transactions S date g) (\<lambda>(n, g').
     bind_err (transactions_loop S date (nat n) (data, order_id, g')) (dates_loop S ds))"

definition generate_sales_data :: "'g np_random \<Rightarrow> 'g \<Rightarrow> py_error + (row list \<times> 'g)" where
  "generate_sales_data S g =
     bind_err (dates_loop S dates ([], 1, g)) (\<lambda>(data, order_id, g'). Inr (data, g'))"

section \<open>Notions for stating the properties\<close>

text \<open>The records created from a list of dated transactions, numbered from \<open>order_id\<close> on.\<close>

definition numbered_records :: "nat \<Rightarrow> (date \<times> txn) list \<Rightarrow> row list" where
  "numbered_records order_id dts =
     map2 (\<lambda>k (d, t). create_record k d t) [order_id ..< order_id + length dts] dts"

text \<open>The transactions of the days \<open>ds\<close>, day by day, each with its date.\<close>

definition dated :: "date list \<Rightarrow> txn list list \<Rightarrow> (date \<times> txn) list" where
  "dated ds blocks = concat (map2 (\<lambda>d ts. map (Pair d) ts) ds blocks)"

definition valid_date :: "date \<Rightarrow> bool" where
  "valid_date d \<longleftrightarrow>
     1 \<le> year d \<and> 1 \<le> month d \<and> month d \<le> 12 \<and> 1 \<le> day d \<and>
     day d \<le> days_in_month (year d) (month d)"

text \<open>The value of a column in a record.\<close>

definition row_get :: "row \<Rightarrow> string \<Rightarrow> pyval option" where
  "row_get r k = map_of r k"

text \<open>The columns of a transaction record in the order of the data model: order id, date,
  customer, product, category, region, sales representative, quantity, the derived price
  and profit figures, the discount and the final figures, shipping and tax, satisfaction,
  delivery days, return flag, and the calendar fields of the date.\<close>

definition documented_columns :: "string list" where
  "documented_columns =
     [''Order_ID'', ''Date'', ''Customer_ID'', ''Product'', ''Category'', ''Region'',
      ''Sales_Rep'', ''Quantity'', ''Unit_Price'', ''Revenue'', ''Cost'', ''Profit'',
      ''Profit_Margin'', ''Discount_Percent'', ''Discount_Amount'', ''Final_Revenue'',
      ''Final_Profit'', ''Final_Margin'', ''Shipping_Cost'', ''Tax_Amount'',
      ''Customer_Satisfaction'', ''Delivery_Days'', ''Is_Returned'', ''Year'', ''Month'',
      ''Quarter'', ''Day_of_Week'', ''Week_Number'']"

subsection \<open>The product summary\<close>

text \<open>The values of a column, as \<open>pandas\<close> reads them when it aggregates.\<close>

definition str_value :: "row \<Rightarrow> string \<Rightarrow> string" where
  "str_value r k = (case row_get r k of Some (PyStr s) \<Rightarrow> s | _ \<Rightarrow> [])"

definition float_value :: "row \<Rightarrow> string \<Rightarrow> real" where
  "float_value r k =
     (case row_get r k of Some (PyFloat x) \<Rightarrow> x | Some (PyInt i) \<Rightarrow> of_int i | _ \<Rightarrow> 0)"

definition int_value :: "row \<Rightarrow> string \<Rightarrow> int" where
  "int_value r k = (case row_get r k of Some (PyInt i) \<Rightarrow> i | _ \<Rightarrow> 0)"

definition bool_value :: "row \<Rightarrow> string \<Rightarrow> bool" where
  "bool_value r k = (case row_get r k of Some (PyBool b) \<Rightarrow> b | _ \<Rightarrow> False)"

text \<open>\<open>df.groupby(key)\<close>: one group for each value of the column, the values in sorted
  order, the rows of a group in the order of the table.\<close>

definition groupby :: "string \<Rightarrow> row list \<Rightarrow> (string \<times> row list) list" where
  "groupby key df =
     map (\<lambda>k. (k, filter (\<lambda>r. str_value r key = k) df))
       (sort (remdups (map (\<lambda>r. str_value r key) df)))"

definition mean :: "real list \<Rightarrow> real" where
  "mean xs = sum_list xs / of_nat (length xs)"

text \<open>The product performance table: the aggregates of each group, rounded to two
  decimals, under the new column names, with the product as the first column.\<close>

definition product_data :: "row list \<Rightarrow> row list" where
  "product_data df =
     map (\<lambda>(p, grp).
        [(''Product'', PyStr p),
         (''Total_Revenue'',
            PyFloat (py_round (sum_list (map (\<lambda>r. float_value r ''Final_Revenue'') grp)) 2)),
         (''Total_Quantity'', PyInt (sum_list (map (\<lambda>r. int_value r ''Quantity'') grp))),
         (''Total_Orders'', PyInt (int (length grp))),
         (''Avg_Margin'',
            PyFloat (py_round (mean (map (\<lambda>r. float_value r ''Final_Margin'') grp)) 2)),
         (''Avg_Satisfaction'',
            PyFloat (py_round (mean (map (\<lambda>r. float_value r ''Customer_Satisfaction'') grp)) 2)),
         (''Return_Rate'',
            PyFloat (py_round
              (of_nat (length (filter (\<lambda>r. bool_value r ''Is_Returned'') grp))
                 / of_nat (length grp) * 100) 2))])
       (groupby ''Product'' df)"

subsection \<open>The script\<close>


text \<open>The sum of the final revenue column over the records of a product.\<close>

definition revenue_of_product :: "row list \<Rightarrow> string \<Rightarrow> real" where
  "revenue_of_product df p =
     sum_list (map (\<lambda>r. float_value r ''Final_Revenue'')
       (filter (\<lambda>r. row_get r ''Product'' = Some (PyStr p)) df))"

text \<open>The number that a string of decimal digits denotes, and the numeric part of an
  order identifier, which follows the four characters \<open>ORD_\<close>.\<close>

definition digit_value :: "char \<Rightarrow> nat" where
  "digit_value c = of_char c - 48"

definition parse_nat :: "string \<Rightarrow> nat" where
  "parse_nat s = foldl (\<lambda>a c. 10 * a + digit_value c) 0 s"

definition order_number :: "row \<Rightarrow> nat option" where
  "order_number r =
     (case row_get r ''Order_ID'' of
        Some (PyStr s) \<Rightarrow> if take 4 s = ''ORD_'' then Some (parse_nat (drop 4 s)) else None
      | _ \<Rightarrow> None)"

text \<open>The tax rate of a region as the specification states it.\<close>

definition documented_tax_rate :: "string \<Rightarrow> real" where
  "documented_tax_rate r = (if r = ''North America'' then 0.08 else 0.15)"

text \<open>A sampler to run the generator on: the state counts the draws, a choice is the first
  element, a uniform draw lies one twenty-fifth of the way from the lower bound, and the
  other draws are constants.\<close>

definition example_sampler :: "nat np_random" where
  "example_sampler =
     \<lparr>np_seed = (\<lambda>n. n),
      np_poisson = (\<lambda>lam g. (0, g + 1)),
      np_choice = (\<lambda>a p g. (hd a, g + 1)),
      np_uniform = (\<lambda>lo hi g. (lo + (hi - lo) / 25, g + 1)),
      np_random = (\<lambda>g. (1 / 2, g + 1)),
      np_randint = (\<lambda>lo hi g. (lo, g + 1)),
      np_normal = (\<lambda>mu sigma g. (mu, g + 1))\<rparr>"

text \<open>The transaction that \<open>example_sampler\<close> produces, from every state.\<close>

definition example_txn :: txn where
  "example_txn =
     \<lparr>product = ''Laptop'', category = ''Electronics'', region = ''North America'',
      sales_rep = ''John Smith'', customer_id = ''CUST_00001'', rep_factor = 1.15,
      quantity = 1, unit_price = 956.064, revenue = 956.064, cost = 393.898368,
      profit = 562.165632, profit_margin = 58.8, discount_percent = 0, discount_amount = 0,
      final_revenue = 956.064, final_profit = 562.165632, final_margin = 58.8,
      shipping_cost = 2.32, tax_amount = 76.48512, customer_satisfaction = 4.094,
      delivery_days = 1, is_returned = False\<rparr>"

text \<open>The records of the run of \<open>example_sampler\<close> from the state that seed 42 installs.\<close>

definition example_data :: "row list" where
  "example_data = fst (projr (generate_sales_data example_sampler (np_seed example_sampler 42)))"

text \<open>A sampler outside the contract of the library: it keeps the weak contract, it always
  grants a discount, and the discount it draws is 100 percent. With it the final revenue
  is 0.\<close>

definition zero_revenue_sampler :: "nat np_random" where
  "zero_revenue_sampler =
     \<lparr>np_seed = (\<lambda>n. n),
      np_poisson = (\<lambda>lam g. (0, g + 1)),
      np_choice = (\<lambda>a p g. (hd a, g + 1)),
      np_uniform = (\<lambda>lo hi g. (if lo = 5 \<and> hi = 25 then 100 else lo + (hi - lo) / 25, g + 1)),
      np_random = (\<lambda>g. (0.15, g + 1)),
      np_randint = (\<lambda>lo hi g. (lo, g + 1)),
      np_normal = (\<lambda>mu sigma g. (mu, g + 1))\<rparr>"

definition zero_revenue_txn :: txn where
  "zero_revenue_txn =
     \<lparr>product = ''Laptop'', category = ''Electronics'', region = ''North America'',
      sales_rep = ''John Smith'', customer_id = ''CUST_00001'', rep_factor = 1.15,
      quantity = 1, unit_price = 956.064, revenue = 956.064, cost = 393.898368,
      profit = 562.165632, profit_margin = 58.8, discount_percent = 100,
      discount_amount = 956.064, final_revenue = 0, final_profit = - 393.898368,
      final_margin = 0, shipping_cost = 2.32, tax_amount = 0, customer_satisfaction = 3.8,
      delivery_days = 1, is_returned = False\<rparr>"

definition zero_revenue_data :: "row list" where
  "zero_revenue_data =
     fst (projr (generate_sales_data zero_revenue_sampler (np_seed zero_revenue_sampler 42)))"


text \<open>The mean of the daily Poisson draw as the specification words it: the base rate 15,
  times the sinusoid of the day of the year with the one override of the month, times the
  weekday or weekend multiplier, times the linear growth.\<close>

definition month_override :: "nat \<Rightarrow> real" where
  "month_override m =
     (if m = 11 \<or> m = 12 then 1.8 else if m = 6 \<or> m = 7 then 1.3
      else if m = 1 \<or> m = 2 then 0.7 else 1)"

definition is_weekend :: "date \<Rightarrow> bool" where
  "is_weekend d \<longleftrightarrow> strftime_A d = ''Saturday'' \<or> strftime_A d = ''Sunday''"

definition documented_mean :: "date \<Rightarrow> real" where
  "documented_mean d =
     15 * ((1 + 0.3 * sin (2 * pi * real (tm_yday d) / 365)) * month_override (month d))
        * (if is_weekend d then 0.8 else 1.2)
        * (1 + (real_of_int (days_between d start_date) / 365) * 0.15)"

section \<open>Inversion of a successful transaction\<close>

text \<open>Elimination rules that take a successful run apart, one statement at a time.\<close>


lemma bind_errE:
  assumes "bind_err m f = Inr r"
  obtains v where "m = Inr v" and "f v = Inr r"
  using assms by (cases m) (simp_all add: bind_err_def)

lemma bind_err_prodE:
  assumes "bind_err m (\<lambda>(a, b). f a b) = Inr r"
  obtains a b where "m = Inr (a, b)" and "f a b = Inr r"
  using assms by (cases m) (auto simp: bind_err_def)

lemma let_prodE:
  assumes "(let (a, b) = e in f a b) = r"
  obtains a b where "e = (a, b)" and "f a b = r"
  using assms by (cases e) simp

lemma let_prod3E:
  assumes "(let (a, b, c) = e in f a b c) = r"
  obtains a b c where "e = (a, b, c)" and "f a b c = r"
  using assms by (cases e) simp

lemma letE:
  assumes "(let x = e in f x) = r"
  obtains x where "x = e" and "f x = r"
  using assms by simp

lemma py_div_InrE:
  assumes "py_div a b = Inr q"
  obtains "b \<noteq> 0" and "q = a / b"
  using assms by (auto simp: py_div_def split: if_splits)


lemma final_margin_InrE:
  assumes "(if 0 < b then bind_err (py_div a b) (\<lambda>r. Inr (r * 100)) else Inr 0) = Inr v"
  obtains "v = (if 0 < b then a / b * 100 else 0)"
  using assms by (auto simp: py_div_def bind_err_def split: if_splits)

lemma sample_transaction_Inr_ex:
  assumes "sample_transaction S g0 = Inr (t, g')"
  shows "\<exists>g1 g2 g3 g4 base_price region_multiplier price_variation g5 bulk g6 g7
    cost_ratio g8 discounted g9 g10 g11 noise g12 min_days max_days g13 returned.
    (random_choice S products None g0 = Inr (product t, g1))
    \<and> (dict_get product_categories (product t) = Inr (category t))
    \<and> (random_choice S regions (Some [0.35, 0.25, 0.20, 0.15, 0.05]) g1 = Inr (region t, g2))
    \<and> (random_choice S sales_reps
           (Some [0.15, 0.12, 0.11, 0.10, 0.10, 0.09, 0.09, 0.08, 0.08, 0.08]) g2
         = Inr (sales_rep t, g3))
    \<and> (random_choice S customers None g3 = Inr (customer_id t, g4))
    \<and> (dict_get base_prices (product t) = Inr base_price)
    \<and> (dict_get region_multipliers (region t) = Inr region_multiplier)
    \<and> (dict_get rep_performance (sales_rep t) = Inr (rep_factor t))
    \<and> (np_uniform S 0.85 1.25 g4 = (price_variation, g5))
    \<and> (unit_price t = base_price * region_multiplier * rep_factor t * price_variation)
    \<and> (np_random S g5 = (bulk, g6))
    \<and> ((if bulk < 0.1 then random_randint S 5 20 g6 else random_randint S 1 4 g6)
         = Inr (quantity t, g7))
    \<and> (revenue t = unit_price t * of_int (quantity t))
    \<and> (np_uniform S 0.4 0.7 g7 = (cost_ratio, g8))
    \<and> (cost t = revenue t * cost_ratio)
    \<and> (profit t = revenue t - cost t)
    \<and> (revenue t \<noteq> 0)
    \<and> (profit_margin t = profit t / revenue t * 100)
    \<and> (np_random S g8 = (discounted, g9))
    \<and> ((if discounted < 0.2
          then let (discount_percent, g) = np_uniform S 5 25 g9
               in (discount_percent, revenue t * (discount_percent / 100), g)
          else (0, 0, g9)) = (discount_percent t, discount_amount t, g10))
    \<and> (final_revenue t = revenue t - discount_amount t)
    \<and> (final_profit t = final_revenue t - cost t)
    \<and> (final_margin t =
           (if final_revenue t > 0 then final_profit t / final_revenue t * 100 else 0))
    \<and> ((if region t \<noteq> ''North America'' then np_uniform S 5 25 g10
          else np_uniform S 2 10 g10) = (shipping_cost t, g11))
    \<and> (tax_amount t =
           final_revenue t * (if region t = ''North America'' then 0.08 else 0.15))
    \<and> (np_normal S 0 0.3 g11 = (noise, g12))
    \<and> (customer_satisfaction t =
           min 5.0 (max 1.0 (3.5 + ((final_margin t / 100) * 0.5 + (rep_factor t - 1) * 2) + noise)))
    \<and> (dict_get region_delivery_days (region t) = Inr (min_days, max_days))
    \<and> (random_randint S min_days (max_days + 1) g12 = Inr (delivery_days t, g13))
    \<and> (np_random S g13 = (returned, g'))
    \<and> (is_returned t
           = (returned < max 0.01 (0.15 - (customer_satisfaction t - 3) * 0.03)))"
  using assms unfolding sample_transaction_def
  apply -
  apply (erule bind_err_prodE)
  apply (erule bind_errE)
  apply (erule bind_err_prodE)
  apply (erule letE)
  apply (erule bind_err_prodE)
  apply (erule bind_err_prodE)
  apply (erule bind_errE)
  apply (erule bind_errE)
  apply (erule bind_errE)
  apply (erule let_prodE)
  apply (erule letE)
  apply (erule let_prodE)
  apply (erule bind_err_prodE)
  apply (erule letE)
  apply (erule let_prodE)
  apply (erule letE)
  apply (erule letE)
  apply (erule bind_errE)
  apply (erule py_div_InrE)
  apply (erule letE)
  apply (erule let_prodE)
  apply (erule let_prod3E)
  apply (erule letE)
  apply (erule letE)
  apply (erule bind_errE)
  apply (erule final_margin_InrE)
  apply (erule let_prodE)
  apply (erule letE)
  apply (erule letE)
  apply (erule letE)
  apply (erule letE)
  apply (erule let_prodE)
  apply (erule letE)
  apply (erule bind_err_prodE)
  apply (erule bind_err_prodE)
  apply (erule letE)
  apply (erule let_prodE)
  apply (erule letE)
  apply (simp only: sum.inject prod.inject)
  apply (elim conjE)
  apply hypsubst
  apply (intro exI conjI)
  apply (simp_all only: txn.select_convs)
  apply (assumption | rule refl | simp only: not_False_eq_True)+
  done


lemma sample_transaction_InrE:
  assumes "sample_transaction S g0 = Inr (t, g')"
  obtains g1 g2 g3 g4 base_price region_multiplier price_variation g5 bulk g6 g7
    cost_ratio g8 discounted g9 g10 g11 noise g12 min_days max_days g13 returned
  where "random_choice S products None g0 = Inr (product t, g1)"
    and "dict_get product_categories (product t) = Inr (category t)"
    and "random_choice S regions (Some [0.35, 0.25, 0.20, 0.15, 0.05]) g1 = Inr (region t, g2)"
    and "random_choice S sales_reps
           (Some [0.15, 0.12, 0.11, 0.10, 0.10, 0.09, 0.09, 0.08, 0.08, 0.08]) g2
         = Inr (sales_rep t, g3)"
    and "random_choice S customers None g3 = Inr (customer_id t, g4)"
    and "dict_get base_prices (product t) = Inr base_price"
    and "dict_get region_multipliers (region t) = Inr region_multiplier"
    and "dict_get rep_performance (sales_rep t) = Inr (rep_factor t)"
    and "np_uniform S 0.85 1.25 g4 = (price_variation, g5)"
    and "unit_price t = base_price * region_multiplier * rep_factor t * price_variation"
    and "np_random S g5 = (bulk, g6)"
    and "(if bulk < 0.1 then random_randint S 5 20 g6 else random_randint S 1 4 g6)
         = Inr (quantity t, g7)"
    and "revenue t = unit_price t * of_int (quantity t)"
    and "np_uniform S 0.4 0.7 g7 = (cost_ratio, g8)"
    and "cost t = revenue t * cost_ratio"
    and "profit t = revenue t - cost t"
    and "revenue t \<noteq> 0"
    and "profit_margin t = profit t / revenue t * 100"
    and "np_random S g8 = (discounted, g9)"
    and "(if discounted < 0.2
          then let (discount_percent, g) = np_uniform S 5 25 g9
               in (discount_percent, revenue t * (discount_percent / 100), g)
          else (0, 0, g9)) = (discount_percent t, discount_amount t, g10)"
    and "final_revenue t = revenue t - discount_amount t"
    and "final_profit t = final_revenue t - cost t"
    and "final_margin t =
           (if final_revenue t > 0 then final_profit t / final_revenue t * 100 else 0)"
    and "(if region t \<noteq> ''North America'' then np_uniform S 5 25 g10
          else np_uniform S 2 10 g10) = (shipping_cost t, g11)"
    and "tax_amount t =
           final_revenue t * (if region t = ''North America'' then 0.08 else 0.15)"
    and "np_normal S 0 0.3 g11 = (noise, g12)"
    and "customer_satisfaction t =
           min 5.0 (max 1.0 (3.5 + ((final_margin t / 100) * 0.5 + (rep_factor t - 1) * 2) + noise))"
    and "dict_get region_delivery_days (region t) = Inr (min_days, max_days)"
    and "random_randint S min_days (max_days + 1) g12 = Inr (delivery_days t, g13)"
    and "np_random S g13 = (returned, g')"
    and "is_returned t
           = (returned < max 0.01 (0.15 - (customer_satisfaction t - 3) * 0.03))"
proof -
  from sample_transaction_Inr_ex [OF assms] show thesis
    apply (elim exE conjE)
    apply (rule that; assumption)
    done
qed


section \<open>A transaction under the contract of the sampling library\<close>


lemma not_isl_projr: "\<not> isl x \<Longrightarrow> x = Inr (projr x)"
  by (cases x) simp_all

lemma product_lookup_aux:
  "p \<in> set products \<Longrightarrow>
     \<not> isl (dict_get product_categories p) \<and> \<not> isl (dict_get base_prices p) \<and>
     0 < projr (dict_get base_prices p)"
  unfolding products_def set_simps insert_iff empty_iff
  by (elim disjE FalseE) (simp_all add: dict_get_def product_categories_def base_prices_def)

lemma product_lookup:
  assumes "p \<in> set products"
  obtains c b where "dict_get product_categories p = Inr c"
    and "dict_get base_prices p = Inr b" and "0 < b"
  using product_lookup_aux [OF assms] not_isl_projr that by metis

lemma region_lookup_aux:
  "r \<in> set regions \<Longrightarrow>
     \<not> isl (dict_get region_multipliers r) \<and> 0 < projr (dict_get region_multipliers r) \<and>
     \<not> isl (dict_get region_delivery_days r) \<and>
     fst (projr (dict_get region_delivery_days r)) \<le> snd (projr (dict_get region_delivery_days r))"
  unfolding regions_def set_simps insert_iff empty_iff
  by (elim disjE FalseE)
     (simp_all add: dict_get_def region_multipliers_def region_delivery_days_def)

lemma region_lookup:
  assumes "r \<in> set regions"
  obtains m lo hi where "dict_get region_multipliers r = Inr m" and "0 < m"
    and "dict_get region_delivery_days r = Inr (lo, hi)" and "lo \<le> hi"
proof -
  note a = region_lookup_aux [OF assms]
  show thesis
  proof (rule that)
    show "dict_get region_multipliers r = Inr (projr (dict_get region_multipliers r))"
      using a by (simp add: not_isl_projr)
    show "0 < projr (dict_get region_multipliers r)" using a by simp
    show "dict_get region_delivery_days r
        = Inr (fst (projr (dict_get region_delivery_days r)),
               snd (projr (dict_get region_delivery_days r)))"
      using a by (simp add: not_isl_projr)
    show "fst (projr (dict_get region_delivery_days r))
        \<le> snd (projr (dict_get region_delivery_days r))" using a by simp
  qed
qed

lemma rep_lookup_aux:
  "s \<in> set sales_reps \<Longrightarrow>
     \<not> isl (dict_get rep_performance s) \<and> 1 < projr (dict_get rep_performance s)"
  unfolding sales_reps_def set_simps insert_iff empty_iff
  by (elim disjE FalseE) (simp_all add: dict_get_def rep_performance_def)

lemma rep_lookup:
  assumes "s \<in> set sales_reps"
  obtains f where "dict_get rep_performance s = Inr f" and "1 < f"
  using rep_lookup_aux [OF assms] not_isl_projr that by metis

lemma customers_nonempty: "customers \<noteq> []"
  by (simp add: customers_def)

lemma random_choice_uniform:
  assumes "sampler_weak_ok S" and "a \<noteq> []"
  obtains x g' where "random_choice S a None g = Inr (x, g')" and "x \<in> set a"
proof -
  have "fst (np_choice S a None g) \<in> set a"
    using assms by (simp add: sampler_weak_ok_def)
  moreover have "random_choice S a None g = Inr (fst (np_choice S a None g), snd (np_choice S a None g))"
    using assms by (simp add: random_choice_def)
  ultimately show thesis using that by blast
qed

lemma random_choice_weighted:
  assumes "sampler_weak_ok S" and "a \<noteq> []" and "length ws = length a"
    and "\<not> list_ex (\<lambda>w. w < 0) ws" and "sum_list ws = 1"
  obtains x g' where "random_choice S a (Some ws) g = Inr (x, g')" and "x \<in> set a"
proof -
  have "fst (np_choice S a (Some ws) g) \<in> set a"
    using assms by (simp add: sampler_weak_ok_def)
  moreover have "random_choice S a (Some ws) g
      = Inr (fst (np_choice S a (Some ws) g), snd (np_choice S a (Some ws) g))"
    using assms by (simp add: random_choice_def)
  ultimately show thesis using that by blast
qed

lemma random_randint_ok:
  assumes "sampler_weak_ok S" and "lo < hi"
  shows "\<exists>k g'. random_randint S lo hi g = Inr (k, g') \<and> lo \<le> k \<and> k < hi"
proof -
  have "lo \<le> fst (np_randint S lo hi g) \<and> fst (np_randint S lo hi g) < hi"
    using assms unfolding sampler_weak_ok_def by blast
  moreover have "random_randint S lo hi g
      = Inr (fst (np_randint S lo hi g), snd (np_randint S lo hi g))"
    using assms by (simp add: random_randint_def)
  ultimately show ?thesis by blast
qed

lemma sampler_ok_weak: "sampler_ok S \<Longrightarrow> sampler_weak_ok S"
  unfolding sampler_ok_def sampler_weak_ok_def by blast

lemma np_uniform_lower:
  assumes "sampler_weak_ok S" and "lo \<le> hi" and "np_uniform S lo hi g = (x, g')"
  shows "lo \<le> x"
proof -
  have "lo \<le> fst (np_uniform S lo hi g)"
    using assms(1,2) unfolding sampler_weak_ok_def by blast
  then show ?thesis using assms(3) by simp
qed

lemma np_uniform_bounds:
  assumes "sampler_ok S" and "lo \<le> hi" and "np_uniform S lo hi g = (x, g')"
  shows "lo \<le> x" and "x \<le> hi"
proof -
  have "lo \<le> fst (np_uniform S lo hi g) \<and> fst (np_uniform S lo hi g) \<le> hi"
    using assms(1,2) unfolding sampler_ok_def by blast
  then show "lo \<le> x" and "x \<le> hi"
    using assms(3) by simp_all
qed

lemma bind_err_exI: "m = Inr v \<Longrightarrow> \<exists>r. f v = Inr r \<Longrightarrow> \<exists>r. bind_err m f = Inr r"
  by (simp add: bind_err_def)

lemma bind_err_prod_exI:
  "m = Inr (a, b) \<Longrightarrow> \<exists>r. f a b = Inr r \<Longrightarrow> \<exists>r. bind_err m (\<lambda>(a, b). f a b) = Inr r"
  by (simp add: bind_err_def)

lemma let_exI: "x = e \<Longrightarrow> \<exists>r. f x = Inr r \<Longrightarrow> \<exists>r. Let e f = Inr r"
  by simp

lemma let_prod_exI:
  "e = (a, b) \<Longrightarrow> \<exists>r. f a b = Inr r \<Longrightarrow> \<exists>r. (let (a, b) = e in f a b) = Inr r"
  by simp

lemma let_prod3_exI:
  "e = (a, b, c) \<Longrightarrow> \<exists>r. f a b c = Inr r \<Longrightarrow> \<exists>r. (let (a, b, c) = e in f a b c) = Inr r"
  by simp

lemma final_margin_total:
  "\<exists>v. (if 0 < b then bind_err (py_div a b) (\<lambda>r. Inr (r * 100)) else Inr 0) = Inr v"
  by (simp add: py_div_def bind_err_def)

lemma sample_transaction_total:
  assumes ok: "sampler_weak_ok S"
  shows "\<exists>r. sample_transaction S g0 = Inr r"
proof -
  obtain product g1 where c1: "random_choice S products None g0 = Inr (product, g1)"
    and p: "product \<in> set products"
    using random_choice_uniform [OF ok, of products g0] by (auto simp: products_def)
  obtain category base_price where d1: "dict_get product_categories product = Inr category"
    and d2: "dict_get base_prices product = Inr base_price" and bp: "0 < base_price"
    using product_lookup [OF p] by blast
  obtain region g2 where
    c2: "random_choice S regions (Some [0.35, 0.25, 0.20, 0.15, 0.05]) g1 = Inr (region, g2)"
    and r: "region \<in> set regions"
    using random_choice_weighted [OF ok, of regions "[0.35, 0.25, 0.20, 0.15, 0.05]" g1]
    by (auto simp: regions_def)
  define rep_weights :: "real list"
    where "rep_weights = [0.15, 0.12, 0.11, 0.10, 0.10, 0.09, 0.09, 0.08, 0.08, 0.08]"
  obtain sales_rep g3 where
    c3: "random_choice S sales_reps (Some rep_weights) g2 = Inr (sales_rep, g3)"
    and sr: "sales_rep \<in> set sales_reps"
    using random_choice_weighted [OF ok, of sales_reps rep_weights g2]
    by (auto simp: sales_reps_def rep_weights_def)
  obtain customer_id g4 where
    c4: "random_choice S customers None g3 = Inr (customer_id, g4)"
    using random_choice_uniform [OF ok customers_nonempty, of g3] by blast
  obtain region_multiplier min_days max_days where
    d3: "dict_get region_multipliers region = Inr region_multiplier"
    and rm: "0 < region_multiplier"
    and d5: "dict_get region_delivery_days region = Inr (min_days, max_days)"
    and md: "min_days \<le> max_days"
    using region_lookup [OF r] by blast
  obtain rep_factor where d4: "dict_get rep_performance sales_rep = Inr rep_factor"
    and rf: "1 < rep_factor"
    using rep_lookup [OF sr] by blast
  obtain price_variation g5 where u1: "np_uniform S 0.85 1.25 g4 = (price_variation, g5)"
    by (cases "np_uniform S 0.85 1.25 g4")
  have pv: "0.85 \<le> price_variation"
    by (rule np_uniform_lower [OF ok _ u1]) simp
  define unit_price where
    "unit_price = base_price * region_multiplier * rep_factor * price_variation"
  obtain bulk g6 where r1: "np_random S g5 = (bulk, g6)"
    by (cases "np_random S g5")
  obtain quantity g7 where
    q: "(if bulk < 0.1 then random_randint S 5 20 g6 else random_randint S 1 4 g6)
          = Inr (quantity, g7)"
    and q1: "1 \<le> quantity"
  proof (cases "bulk < 0.1")
    case True
    obtain k g where "random_randint S 5 20 g6 = Inr (k, g)" and "5 \<le> k"
      using random_randint_ok [OF ok, of 5 20 g6] by auto
    with True that [of k g] show thesis by simp
  next
    case False
    obtain k g where "random_randint S 1 4 g6 = Inr (k, g)" and "1 \<le> k"
      using random_randint_ok [OF ok, of 1 4 g6] by auto
    with False that [of k g] show thesis by simp
  qed
  define revenue where "revenue = unit_price * of_int quantity"
  obtain cost_ratio g8 where u2: "np_uniform S 0.4 0.7 g7 = (cost_ratio, g8)"
    by (cases "np_uniform S 0.4 0.7 g7")
  define cost where "cost = revenue * cost_ratio"
  define profit where "profit = revenue - cost"
  have "0 < unit_price"
    unfolding unit_price_def using bp rm rf pv by simp
  then have "0 < revenue"
    unfolding revenue_def using q1 by simp
  then have pd: "py_div profit revenue = Inr (profit / revenue)"
    by (simp add: py_div_def)
  define profit_margin where "profit_margin = profit / revenue * 100"
  obtain discounted g9 where r2: "np_random S g8 = (discounted, g9)"
    by (cases "np_random S g8")
  let ?discount = "if discounted < 0.2
           then let (discount_percent, g) = np_uniform S 5 25 g9
                in (discount_percent, revenue * (discount_percent / 100), g)
           else (0, 0, g9)"
  obtain discount_percent discount_amount g10 where
    dsc: "?discount = (discount_percent, discount_amount, g10)"
    by (cases ?discount)
  define final_revenue where "final_revenue = revenue - discount_amount"
  define final_profit where "final_profit = final_revenue - cost"
  obtain final_margin where
    fm: "(if 0 < final_revenue
          then bind_err (py_div final_profit final_revenue) (\<lambda>r. Inr (r * 100))
          else Inr 0) = Inr final_margin"
    using final_margin_total by blast
  let ?shipping = "if region \<noteq> ''North America'' then np_uniform S 5 25 g10
          else np_uniform S 2 10 g10"
  obtain shipping_cost g11 where sh: "?shipping = (shipping_cost, g11)"
    by (cases ?shipping)
  define tax_rate :: real where
    "tax_rate = (if region = ''North America'' then 0.08 else 0.15)"
  define tax_amount where "tax_amount = final_revenue * tax_rate"
  define base_satisfaction :: real where "base_satisfaction = 3.5"
  define satisfaction_boost where
    "satisfaction_boost = (final_margin / 100) * 0.5 + (rep_factor - 1) * 2"
  obtain noise g12 where n: "np_normal S 0 0.3 g11 = (noise, g12)"
    by (cases "np_normal S 0 0.3 g11")
  define customer_satisfaction where
    "customer_satisfaction
       = min 5.0 (max 1.0 (base_satisfaction + satisfaction_boost + noise))"
  obtain delivery_days g13 where
    dd: "random_randint S min_days (max_days + 1) g12 = Inr (delivery_days, g13)"
    using random_randint_ok [OF ok, of min_days "max_days + 1" g12] md by auto
  define return_probability where
    "return_probability = max 0.01 (0.15 - (customer_satisfaction - 3) * 0.03)"
  obtain returned g14 where r3: "np_random S g13 = (returned, g14)"
    by (cases "np_random S g13")
  define is_returned where "is_returned = (returned < return_probability)"
  show ?thesis
    unfolding sample_transaction_def
    apply (rule bind_err_prod_exI [OF c1])
    apply (rule bind_err_exI [OF d1])
    apply (rule bind_err_prod_exI [OF c2])
    apply (rule let_exI [OF rep_weights_def])
    apply (rule bind_err_prod_exI [OF c3])
    apply (rule bind_err_prod_exI [OF c4])
    apply (rule bind_err_exI [OF d2])
    apply (rule bind_err_exI [OF d3])
    apply (rule bind_err_exI [OF d4])
    apply (rule let_prod_exI [OF u1])
    apply (rule let_exI [OF unit_price_def])
    apply (rule let_prod_exI [OF r1])
    apply (rule bind_err_prod_exI [OF q])
    apply (rule let_exI [OF revenue_def])
    apply (rule let_prod_exI [OF u2])
    apply (rule let_exI [OF cost_def])
    apply (rule let_exI [OF profit_def])
    apply (rule bind_err_exI [OF pd])
    apply (rule let_exI [OF profit_margin_def])
    apply (rule let_prod_exI [OF r2])
    apply (rule let_prod3_exI [OF dsc])
    apply (rule let_exI [OF final_revenue_def])
    apply (rule let_exI [OF final_profit_def])
    apply (rule bind_err_exI [OF fm])
    apply (rule let_prod_exI [OF sh])
    apply (rule let_exI [OF tax_rate_def])
    apply (rule let_exI [OF tax_amount_def])
    apply (rule let_exI [OF base_satisfaction_def])
    apply (rule let_exI [OF satisfaction_boost_def])
    apply (rule let_prod_exI [OF n])
    apply (rule let_exI [OF customer_satisfaction_def])
    apply (rule bind_err_prod_exI [OF d5])
    apply (rule bind_err_prod_exI [OF dd])
    apply (rule let_exI [OF return_probability_def])
    apply (rule let_prod_exI [OF r3])
    apply (rule let_exI [OF is_returned_def])
    apply (rule exI, rule refl)
    done
qed


lemma random_choice_mem:
  assumes "sampler_ok S" and "random_choice S a p g = Inr (x, g')"
  shows "x \<in> set a"
proof -
  from assms(2) have "a \<noteq> []" and "np_choice S a p g = (x, g')"
    by (auto simp: random_choice_def split: if_splits option.splits)
  moreover from assms(1) \<open>a \<noteq> []\<close> have "fst (np_choice S a p g) \<in> set a"
    unfolding sampler_ok_def by blast
  ultimately show ?thesis by simp
qed

lemma random_randint_bounds:
  assumes "sampler_ok S" and "random_randint S lo hi g = Inr (k, g')"
  shows "lo \<le> k" and "k < hi"
proof -
  from assms(2) have "lo < hi" and "np_randint S lo hi g = (k, g')"
    by (auto simp: random_randint_def split: if_splits)
  moreover from assms(1) \<open>lo < hi\<close>
  have "lo \<le> fst (np_randint S lo hi g) \<and> fst (np_randint S lo hi g) < hi"
    unfolding sampler_ok_def by blast
  ultimately show "lo \<le> k" and "k < hi" by simp_all
qed

lemma discount_bounds:
  assumes ok: "sampler_ok S" and "0 < rv"
    and d: "(if u < 0.2
          then let (discount_percent, g) = np_uniform S 5 25 g9
               in (discount_percent, rv * (discount_percent / 100), g)
          else (0, 0, g9)) = (dp, da, g10)"
  shows "0 \<le> da" and "da \<le> rv * (1 / 4)"
    and "da = rv * (dp / 100)" and "dp = 0 \<or> 5 \<le> dp \<and> dp \<le> 25"
proof -
  show "da = rv * (dp / 100)"
    using d by (auto split: if_splits prod.splits)
  show dp: "dp = 0 \<or> 5 \<le> dp \<and> dp \<le> 25"
  proof (cases "u < 0.2")
    case True
    then obtain g where u: "np_uniform S 5 25 g9 = (dp, g)"
      using d by (auto split: prod.splits)
    show ?thesis
      using np_uniform_bounds [OF ok _ u] by simp
  next
    case False
    then show ?thesis using d by simp
  qed
  from dp have lo: "0 \<le> dp / 100" and hi: "dp / 100 \<le> 1 / 4" by auto
  from \<open>0 < rv\<close> have rv: "0 \<le> rv" by simp
  show "0 \<le> da"
    unfolding \<open>da = rv * (dp / 100)\<close> by (rule mult_nonneg_nonneg [OF rv lo])
  show "da \<le> rv * (1 / 4)"
    unfolding \<open>da = rv * (dp / 100)\<close> by (rule mult_left_mono [OF hi rv])
qed

lemma sample_transaction_facts:
  assumes ok: "sampler_ok S" and h: "sample_transaction S g = Inr (t, g')"
  shows "product t \<in> set products" and "region t \<in> set regions"
    and "sales_rep t \<in> set sales_reps" and "customer_id t \<in> set customers"
    and "1 \<le> quantity t" and "0 < unit_price t" and "0 < revenue t"
    and "0 \<le> discount_amount t" and "discount_amount t \<le> revenue t * (1 / 4)"
    and "0 < final_revenue t"
proof -
  from h obtain g1 g2 g3 g4 base_price region_multiplier price_variation g5
    and bulk :: real and g6 g7 and discounted :: real and g9 g10
    where c1: "random_choice S products None g = Inr (product t, g1)"
    and c2: "random_choice S regions (Some [0.35, 0.25, 0.20, 0.15, 0.05]) g1
             = Inr (region t, g2)"
    and c3: "random_choice S sales_reps
           (Some [0.15, 0.12, 0.11, 0.10, 0.10, 0.09, 0.09, 0.08, 0.08, 0.08]) g2
         = Inr (sales_rep t, g3)"
    and c4: "random_choice S customers None g3 = Inr (customer_id t, g4)"
    and d2: "dict_get base_prices (product t) = Inr base_price"
    and d3: "dict_get region_multipliers (region t) = Inr region_multiplier"
    and d4: "dict_get rep_performance (sales_rep t) = Inr (rep_factor t)"
    and u1: "np_uniform S 0.85 1.25 g4 = (price_variation, g5)"
    and up: "unit_price t = base_price * region_multiplier * rep_factor t * price_variation"
    and q: "(if bulk < 0.1 then random_randint S 5 20 g6 else random_randint S 1 4 g6)
         = Inr (quantity t, g7)"
    and rev: "revenue t = unit_price t * of_int (quantity t)"
    and dsc: "(if discounted < 0.2
          then let (discount_percent, g) = np_uniform S 5 25 g9
               in (discount_percent, revenue t * (discount_percent / 100), g)
          else (0, 0, g9)) = (discount_percent t, discount_amount t, g10)"
    and fr: "final_revenue t = revenue t - discount_amount t"
    by - (erule sample_transaction_InrE, rule that; assumption)
  show p: "product t \<in> set products" by (rule random_choice_mem [OF ok c1])
  show r: "region t \<in> set regions" by (rule random_choice_mem [OF ok c2])
  show s: "sales_rep t \<in> set sales_reps" by (rule random_choice_mem [OF ok c3])
  show "customer_id t \<in> set customers" by (rule random_choice_mem [OF ok c4])
  show q1: "1 \<le> quantity t"
    using q random_randint_bounds(1) [OF ok, of 5 20 g6 "quantity t" g7]
      random_randint_bounds(1) [OF ok, of 1 4 g6 "quantity t" g7]
    by (auto split: if_splits)
  have "0 < base_price" using product_lookup_aux [OF p] d2 by simp
  moreover have "0 < region_multiplier" using region_lookup_aux [OF r] d3 by simp
  moreover have "1 < rep_factor t" using rep_lookup_aux [OF s] d4 by simp
  moreover have "0.85 \<le> price_variation"
    by (rule np_uniform_bounds(1) [OF ok _ u1]) simp
  ultimately show u: "0 < unit_price t" unfolding up by simp
  with q1 show rp: "0 < revenue t" unfolding rev by simp
  note db = discount_bounds [OF ok rp dsc]
  show "0 \<le> discount_amount t" by (rule db(1))
  show "discount_amount t \<le> revenue t * (1 / 4)" by (rule db(2))
  with rp show "0 < final_revenue t" unfolding fr by simp
qed


section \<open>The structure of a run\<close>


lemma numbered_records_Nil [simp]: "numbered_records k [] = []"
  by (simp add: numbered_records_def)

lemma numbered_records_Cons:
  "numbered_records k ((d, t) # dts) = create_record k d t # numbered_records (Suc k) dts"
  by (simp add: numbered_records_def upt_conv_Cons del: upt_Suc)

lemma numbered_records_append:
  "numbered_records k (xs @ ys) = numbered_records k xs @ numbered_records (k + length xs) ys"
proof (induction xs arbitrary: k)
  case Nil
  then show ?case by simp
next
  case (Cons x xs)
  obtain d t where x: "x = (d, t)" by (cases x)
  show ?case
    using Cons.IH [of "Suc k"] by (simp add: x numbered_records_Cons)
qed

lemma length_numbered_records [simp]: "length (numbered_records k dts) = length dts"
  by (simp add: numbered_records_def)

lemma transactions_loop_Inr:
  assumes "transactions_loop S d n (data, order_id, g) = Inr (data', order_id', g')"
  shows "\<exists>ts. length ts = n \<and> data' = data @ numbered_records order_id (map (Pair d) ts) \<and>
              order_id' = order_id + n \<and>
              (\<forall>t\<in>set ts. \<exists>gi go. sample_transaction S gi = Inr (t, go))"
  using assms
proof (induction n arbitrary: data order_id g)
  case 0
  then show ?case by simp
next
  case (Suc n)
  from Suc.prems obtain t g1 where s: "sample_transaction S g = Inr (t, g1)"
    and l: "transactions_loop S d n (data @ [create_record order_id d t], order_id + 1, g1)
              = Inr (data', order_id', g')"
    by (auto elim!: bind_err_prodE)
  from Suc.IH [OF l] obtain ts where ts: "length ts = n"
    "data' = (data @ [create_record order_id d t]) @ numbered_records (order_id + 1) (map (Pair d) ts)"
    "order_id' = order_id + 1 + n"
    "\<forall>t\<in>set ts. \<exists>gi go. sample_transaction S gi = Inr (t, go)"
    by blast
  show ?case
  proof (intro exI [of _ "t # ts"] conjI)
    show "length (t # ts) = Suc n" using ts(1) by simp
    show "data' = data @ numbered_records order_id (map (Pair d) (t # ts))"
      using ts(2) by (simp add: numbered_records_Cons)
    show "order_id' = order_id + Suc n" using ts(3) by simp
    show "\<forall>t\<in>set (t # ts). \<exists>gi go. sample_transaction S gi = Inr (t, go)"
      using ts(4) s by auto
  qed
qed

lemma transactions_loop_total:
  assumes "sampler_weak_ok S"
  shows "\<exists>st'. transactions_loop S d n st = Inr st'"
proof (induction n arbitrary: st)
  case 0
  show ?case by (cases st) simp
next
  case (Suc n)
  obtain data order_id g where st: "st = (data, order_id, g)" by (rule prod_cases3)
  obtain t g1 where s: "sample_transaction S g = Inr (t, g1)"
    using sample_transaction_total [OF assms, of g] by auto
  obtain st2 where
    "transactions_loop S d n (data @ [create_record order_id d t], order_id + 1, g1) = Inr st2"
    using Suc.IH by blast
  then have "transactions_loop S d (Suc n) st = Inr st2"
    by (simp add: st s bind_err_def)
  then show ?case ..
qed

lemma num_transactions_Inr:
  assumes "num_transactions S d g = Inr (n, g')"
  shows "n = max 1 (fst (np_poisson S (poisson_mean d) g))" and "1 \<le> n"
    and "g' = snd (np_poisson S (poisson_mean d) g)"
  using assms
  by (auto simp: num_transactions_def random_poisson_def bind_err_def split: if_splits prod.splits)

lemma num_transactions_total:
  assumes "0 \<le> poisson_mean d"
  shows "\<exists>r. num_transactions S d g = Inr r"
  using assms
  by (simp add: num_transactions_def random_poisson_def bind_err_def split: prod.splits)

lemma dated_Nil [simp]: "dated [] blocks = []"
  by (simp add: dated_def)

lemma dated_Cons: "dated (d # ds) (ts # blocks) = map (Pair d) ts @ dated ds blocks"
  by (simp add: dated_def)

lemma dates_loop_Inr:
  assumes "dates_loop S ds (data, order_id, g) = Inr (data', order_id', g')"
  shows "\<exists>blocks. length blocks = length ds \<and>
           data' = data @ numbered_records order_id (dated ds blocks) \<and>
           order_id' = order_id + length (dated ds blocks) \<and>
           (\<forall>i<length ds. \<exists>gi. int (length (blocks ! i))
                 = max 1 (fst (np_poisson S (poisson_mean (ds ! i)) gi))) \<and>
           (\<forall>ts\<in>set blocks. \<forall>t\<in>set ts. \<exists>gi go. sample_transaction S gi = Inr (t, go))"
  using assms
proof (induction ds arbitrary: data order_id g)
  case Nil
  then show ?case by simp
next
  case (Cons d ds)
  from Cons.prems obtain n g1 st where n: "num_transactions S d g = Inr (n, g1)"
    and tl: "transactions_loop S d (nat n) (data, order_id, g1) = Inr st"
    and dl: "dates_loop S ds st = Inr (data', order_id', g')"
    by (auto elim!: bind_err_prodE bind_errE)
  obtain data1 order_id1 g2 where st: "st = (data1, order_id1, g2)" by (rule prod_cases3)
  from transactions_loop_Inr [OF tl [unfolded st]] obtain ts where ts: "length ts = nat n"
    "data1 = data @ numbered_records order_id (map (Pair d) ts)"
    "order_id1 = order_id + nat n"
    "\<forall>t\<in>set ts. \<exists>gi go. sample_transaction S gi = Inr (t, go)"
    by blast
  from Cons.IH [OF dl [unfolded st]] obtain blocks where b: "length blocks = length ds"
    "data' = data1 @ numbered_records order_id1 (dated ds blocks)"
    "order_id' = order_id1 + length (dated ds blocks)"
    "\<forall>i<length ds. \<exists>gi. int (length (blocks ! i))
                 = max 1 (fst (np_poisson S (poisson_mean (ds ! i)) gi))"
    "\<forall>ts\<in>set blocks. \<forall>t\<in>set ts. \<exists>gi go. sample_transaction S gi = Inr (t, go)"
    by blast
  have len: "int (length ts) = max 1 (fst (np_poisson S (poisson_mean d) g))"
    using num_transactions_Inr [OF n] ts(1) by simp
  show ?case
  proof (intro exI [of _ "ts # blocks"] conjI)
    show "length (ts # blocks) = length (d # ds)" using b(1) by simp
    show "data' = data @ numbered_records order_id (dated (d # ds) (ts # blocks))"
      using b(2) ts(1,2,3) by (simp add: dated_Cons numbered_records_append)
    show "order_id' = order_id + length (dated (d # ds) (ts # blocks))"
      using b(3) ts(1,3) by (simp add: dated_Cons)
    show "\<forall>i<length (d # ds). \<exists>gi. int (length ((ts # blocks) ! i))
                 = max 1 (fst (np_poisson S (poisson_mean ((d # ds) ! i)) gi))"
    proof (intro allI impI)
      fix i assume "i < length (d # ds)"
      then show "\<exists>gi. int (length ((ts # blocks) ! i))
                 = max 1 (fst (np_poisson S (poisson_mean ((d # ds) ! i)) gi))"
        using len b(4) by (cases i) auto
    qed
    show "\<forall>ts\<in>set (ts # blocks). \<forall>t\<in>set ts. \<exists>gi go. sample_transaction S gi = Inr (t, go)"
      using ts(4) b(5) by simp
  qed
qed

lemma dates_loop_total:
  assumes "sampler_weak_ok S" and "\<forall>d\<in>set ds. 0 \<le> poisson_mean d"
  shows "\<exists>st'. dates_loop S ds st = Inr st'"
  using assms(2)
proof (induction ds arbitrary: st)
  case Nil
  show ?case by (cases st) simp
next
  case (Cons d ds)
  obtain data order_id g where st: "st = (data, order_id, g)" by (rule prod_cases3)
  from Cons.prems have "0 \<le> poisson_mean d" by simp
  then obtain n g1 where n: "num_transactions S d g = Inr (n, g1)"
    using num_transactions_total [of d S g] by auto
  obtain st1 where tl: "transactions_loop S d (nat n) (data, order_id, g1) = Inr st1"
    using transactions_loop_total [OF assms(1)] by blast
  from Cons.IH [of st1] Cons.prems obtain st2 where "dates_loop S ds st1 = Inr st2"
    by auto
  then have "dates_loop S (d # ds) st = Inr st2"
    by (simp add: st n tl bind_err_def)
  then show ?case ..
qed


section \<open>The date range\<close>


lemma mod_400_100: "(x::nat) mod 400 = 0 \<Longrightarrow> x mod 100 = 0"
  using mod_mod_cancel [of 100 400 x] by simp

lemma mod_100_4: "(x::nat) mod 100 = 0 \<Longrightarrow> x mod 4 = 0"
  using mod_mod_cancel [of 4 100 x] by simp

lemma leap_arith:
  fixes a b c k :: nat
  assumes "b \<le> a" and "p400 \<Longrightarrow> p100" and "p100 \<Longrightarrow> p4"
  shows "k + 365 + (if p4 then Suc a else a) - (if p100 then Suc b else b)
           + (if p400 then Suc c else c)
         = k + a - b + c + (if p4 \<and> (\<not> p100 \<or> p400) then 366 else 365)"
  using assms by (cases p4; cases p100; cases p400; simp)

lemma days_before_year_Suc:
  assumes "1 \<le> y"
  shows "days_before_year (Suc y) = days_before_year y + (if is_leap y then 366 else 365)"
proof -
  obtain n where y: "y = Suc n" using assms by (cases y) auto
  have le: "n div 100 \<le> n div 4" by (rule div_le_mono2) simp_all
  have l: "days_before_year (Suc y) = y * 365 + y div 4 - y div 100 + y div 400"
    unfolding days_before_year_def by (simp only: diff_Suc_1)
  have k: "y * 365 = n * 365 + 365" unfolding y by simp
  have r: "days_before_year y = n * 365 + n div 4 - n div 100 + n div 400"
    unfolding days_before_year_def y by (simp only: diff_Suc_1)
  have d: "y div 4 = (if y mod 4 = 0 then Suc (n div 4) else n div 4)"
    "y div 100 = (if y mod 100 = 0 then Suc (n div 100) else n div 100)"
    "y div 400 = (if y mod 400 = 0 then Suc (n div 400) else n div 400)"
    unfolding y by (rule div_Suc)+
  show ?thesis
    unfolding l r k d is_leap_def
    by (rule leap_arith [OF le mod_400_100 mod_100_4])
qed

lemma days_in_month_pos: "1 \<le> m \<Longrightarrow> m \<le> 12 \<Longrightarrow> 28 \<le> days_in_month y m"
proof -
  assume "1 \<le> m" "m \<le> 12"
  then have "m = 1 \<or> m = 2 \<or> m = 3 \<or> m = 4 \<or> m = 5 \<or> m = 6 \<or> m = 7 \<or> m = 8 \<or> m = 9
      \<or> m = 10 \<or> m = 11 \<or> m = 12" by arith
  then show ?thesis
    by (elim disjE) (simp_all add: days_in_month_def)
qed

lemma days_before_month_Suc:
  assumes "1 \<le> m" and "m < 12"
  shows "days_before_month y (Suc m) = days_before_month y m + days_in_month y m"
proof -
  from assms have "m = 1 \<or> m = 2 \<or> m = 3 \<or> m = 4 \<or> m = 5 \<or> m = 6 \<or> m = 7 \<or> m = 8
      \<or> m = 9 \<or> m = 10 \<or> m = 11" by arith
  then show ?thesis
    by (elim disjE) (simp_all add: days_before_month_def days_in_month_def)
qed

lemma next_day_valid:
  assumes "valid_date d"
  shows "valid_date (next_day d)" and "toordinal (next_day d) = Suc (toordinal d)"
proof -
  from assms have y: "1 \<le> year d" and m: "1 \<le> month d" "month d \<le> 12"
    and dd: "1 \<le> day d" "day d \<le> days_in_month (year d) (month d)"
    by (simp_all add: valid_date_def)
  consider (a) "day d < days_in_month (year d) (month d)"
    | (b) "day d = days_in_month (year d) (month d)" "month d < 12"
    | (c) "day d = days_in_month (year d) (month d)" "month d = 12"
    using dd m by linarith
  then have "valid_date (next_day d) \<and> toordinal (next_day d) = Suc (toordinal d)"
  proof cases
    case a
    then show ?thesis
      using y m dd by (simp add: next_day_def valid_date_def toordinal_def)
  next
    case b
    have "28 \<le> days_in_month (year d) (Suc (month d))"
      using m b by (intro days_in_month_pos) simp_all
    then show ?thesis
      using y m b days_before_month_Suc [of "month d" "year d"]
      by (simp add: next_day_def valid_date_def toordinal_def)
  next
    case c
    then have "day d = 31" by (simp add: days_in_month_def)
    then show ?thesis
      using y c days_before_year_Suc [OF y]
      by (simp add: next_day_def valid_date_def toordinal_def days_in_month_def
          days_before_month_def)
  qed
  then show "valid_date (next_day d)" and "toordinal (next_day d) = Suc (toordinal d)"
    by simp_all
qed

lemma days_from_props:
  assumes "valid_date d"
  shows "length (days_from d n) = n \<and>
         map toordinal (days_from d n) = [toordinal d ..< toordinal d + n] \<and>
         (\<forall>x\<in>set (days_from d n). valid_date x)"
  using assms
proof (induction n arbitrary: d)
  case 0
  show ?case by simp
next
  case (Suc n)
  note nd = next_day_valid [OF \<open>valid_date d\<close>]
  from Suc.IH [OF nd(1)] nd(2) Suc.prems show ?case
    by (simp add: upt_conv_Cons del: upt_Suc)
qed

lemma toordinal_start: "toordinal start_date = 738156"
  by (simp add: toordinal_def start_date_def days_before_year_def days_before_month_def is_leap_def)

lemma toordinal_end: "toordinal end_date = 739251"
  by (simp add: toordinal_def end_date_def days_before_year_def days_before_month_def is_leap_def)

lemma valid_start: "valid_date start_date"
  by (simp add: valid_date_def start_date_def days_in_month_def)

lemma dates_eq: "dates = days_from start_date 1096"
  by (simp add: dates_def date_range_def toordinal_start toordinal_end)

lemma length_dates: "length dates = 1096"
  using days_from_props [OF valid_start, of 1096] unfolding dates_eq by blast

lemma toordinal_dates:
  "map toordinal dates = [toordinal start_date ..< toordinal start_date + 1096]"
  using days_from_props [OF valid_start, of 1096] unfolding dates_eq by blast

lemma dates_valid: "d \<in> set dates \<Longrightarrow> valid_date d"
  using days_from_props [OF valid_start, of 1096] unfolding dates_eq by blast

lemma dates_after_start: "d \<in> set dates \<Longrightarrow> 0 \<le> days_between d start_date"
proof -
  assume "d \<in> set dates"
  then have "toordinal d \<in> set (map toordinal dates)" by simp
  then have "toordinal start_date \<le> toordinal d"
    by (simp only: toordinal_dates set_upt atLeastLessThan_iff)
  then show ?thesis
    by (simp add: days_between_def)
qed


section \<open>A run succeeds\<close>


lemma seasonal_factor_pos: "0 < seasonal_factor d"
proof -
  define s where "s = sin (2 * pi * real (tm_yday d) / 365)"
  have "- 1 \<le> s" unfolding s_def by (rule sin_ge_minus_one)
  then have "0 < 1 + 0.3 * s" by linarith
  then show ?thesis
    by (simp add: seasonal_factor_def Let_def s_def [symmetric])
qed

lemma daily_factor_pos: "0 < daily_factor d"
  by (simp add: daily_factor_def)

lemma growth_factor_ge_1: "0 \<le> days_between d start_date \<Longrightarrow> 1 \<le> growth_factor d"
  by (simp add: growth_factor_def Let_def)

lemma poisson_mean_pos:
  assumes "d \<in> set dates"
  shows "0 < poisson_mean d"
proof -
  have "0 < growth_factor d"
    using growth_factor_ge_1 [OF dates_after_start [OF assms]] by simp
  then show ?thesis
    unfolding poisson_mean_def base_transactions_def
    using seasonal_factor_pos [of d] daily_factor_pos [of d] by simp
qed

lemma generate_sales_data_total:
  assumes "sampler_weak_ok S"
  shows "\<exists>data g'. generate_sales_data S g = Inr (data, g')"
proof -
  have "\<forall>d\<in>set dates. 0 \<le> poisson_mean d"
    using poisson_mean_pos by (auto intro: less_imp_le)
  from dates_loop_total [OF assms this, of "([], 1, g)"]
  obtain st where "dates_loop S dates ([], 1, g) = Inr st" by blast
  then show ?thesis
    by (cases st) (simp add: generate_sales_data_def bind_err_def)
qed

lemma generate_sales_data_Inr:
  assumes "generate_sales_data S g = Inr (data, g')"
  obtains blocks where "length blocks = length dates"
    and "data = numbered_records 1 (dated dates blocks)"
    and "\<And>i. i < length dates \<Longrightarrow> \<exists>gi. int (length (blocks ! i))
                 = max 1 (fst (np_poisson S (poisson_mean (dates ! i)) gi))"
    and "\<And>ts t. ts \<in> set blocks \<Longrightarrow> t \<in> set ts
           \<Longrightarrow> \<exists>gi go. sample_transaction S gi = Inr (t, go)"
proof -
  from assms obtain order_id where "dates_loop S dates ([], 1, g) = Inr (data, order_id, g')"
    by (auto simp: generate_sales_data_def elim!: bind_errE)
  from dates_loop_Inr [OF this] obtain blocks where "length blocks = length dates"
    "data = [] @ numbered_records 1 (dated dates blocks)"
    "\<forall>i<length dates. \<exists>gi. int (length (blocks ! i))
                 = max 1 (fst (np_poisson S (poisson_mean (dates ! i)) gi))"
    "\<forall>ts\<in>set blocks. \<forall>t\<in>set ts. \<exists>gi go. sample_transaction S gi = Inr (t, go)"
    by blast
  then show thesis
    by (intro that [of blocks]) auto
qed


section \<open>The records of a run\<close>


lemma numbered_records_mem:
  assumes "r \<in> set (numbered_records k dts)"
  obtains k' d t where "r = create_record k' d t" and "(d, t) \<in> set dts"
  using assms
proof (induction dts arbitrary: k thesis)
  case Nil
  then show ?case by simp
next
  case (Cons x dts)
  obtain d t where x: "x = (d, t)" by (cases x)
  from Cons.prems(2) consider "r = create_record k d t" | "r \<in> set (numbered_records (Suc k) dts)"
    by (auto simp: x numbered_records_Cons)
  then show ?case
  proof cases
    case 1
    then show ?thesis using Cons.prems(1) [of k d t] by (simp add: x)
  next
    case 2
    show ?thesis
      by (rule Cons.IH [OF _ 2]) (use Cons.prems(1) in auto)
  qed
qed

lemma dated_mem:
  assumes "(d, t) \<in> set (dated ds blocks)"
  shows "d \<in> set ds \<and> (\<exists>ts\<in>set blocks. t \<in> set ts)"
  using assms
proof (induction ds arbitrary: blocks)
  case Nil
  then show ?case by simp
next
  case (Cons a ds)
  show ?case
  proof (cases blocks)
    case Nil
    with Cons.prems show ?thesis by (simp add: dated_def)
  next
    case (Cons ts bs)
    with Cons.prems Cons.IH [of bs] show ?thesis
      by (auto simp: dated_Cons)
  qed
qed

lemma generated_row:
  assumes "generate_sales_data S g = Inr (data, g')" and "r \<in> set data"
  obtains k d t gi go where "r = create_record k d t" and "d \<in> set dates"
    and "sample_transaction S gi = Inr (t, go)"
proof -
  from assms(1) obtain blocks where b: "data = numbered_records 1 (dated dates blocks)"
    and s: "\<And>ts t. ts \<in> set blocks \<Longrightarrow> t \<in> set ts
           \<Longrightarrow> \<exists>gi go. sample_transaction S gi = Inr (t, go)"
    by - (erule generate_sales_data_Inr, rule that; assumption)
  from assms(2) obtain k d t where r: "r = create_record k d t"
    and m: "(d, t) \<in> set (dated dates blocks)"
    unfolding b by (rule numbered_records_mem)
  from dated_mem [OF m] s obtain gi go where "d \<in> set dates"
    "sample_transaction S gi = Inr (t, go)" by blast
  with r show thesis by (rule that)
qed

lemma length_dated: "length blocks = length ds \<Longrightarrow> length (dated ds blocks) = sum_list (map length blocks)"
proof (induction ds arbitrary: blocks)
  case Nil
  then show ?case by simp
next
  case (Cons d ds)
  then obtain ts bs where "blocks = ts # bs" by (cases blocks) auto
  with Cons show ?case by (simp add: dated_Cons)
qed

lemma generated_nonempty:
  assumes "generate_sales_data S g = Inr (data, g')"
  shows "data \<noteq> []"
proof -
  from assms obtain blocks where l: "length blocks = length dates"
    and b: "data = numbered_records 1 (dated dates blocks)"
    and c: "\<And>i. i < length dates \<Longrightarrow> \<exists>gi. int (length (blocks ! i))
                 = max 1 (fst (np_poisson S (poisson_mean (dates ! i)) gi))"
    by - (erule generate_sales_data_Inr, rule that; assumption)
  from l obtain ts bs where bs: "blocks = ts # bs"
    by (cases blocks) (simp_all add: length_dates)
  from c [of 0] have ts: "ts \<noteq> []" by (auto simp: bs length_dates)
  obtain d ds where dd: "dates = d # ds"
    using length_dates by (cases dates) simp_all
  have "dated dates blocks \<noteq> []"
    unfolding dd bs using ts by (simp add: dated_Cons)
  then show ?thesis
    unfolding b by (metis length_numbered_records length_0_conv)
qed

lemma sampler_ok_example: "sampler_ok example_sampler"
  unfolding sampler_ok_def example_sampler_def
  by (simp add: hd_in_set) (auto simp: field_simps)

lemma example_data_eq:
  "generate_sales_data example_sampler (np_seed example_sampler 42)
     = Inr (example_data,
            snd (projr (generate_sales_data example_sampler (np_seed example_sampler 42))))"
  using generate_sales_data_total [OF sampler_ok_weak [OF sampler_ok_example],
      of "np_seed example_sampler 42"]
  by (auto simp: example_data_def)

lemma hd_example_data: "hd example_data \<in> set example_data"
  using generated_nonempty [OF example_data_eq] by simp

lemma columns_create_record: "map fst (create_record k d t) = documented_columns"
  by (simp add: create_record_def documented_columns_def)

subsection \<open>The columns of a record\<close>

text \<open>
  C7, amended: every record of a run has exactly the columns of the data model, in the
  order of the data model, each of them once and with a value. They are 28 columns, not 29.
\<close>

theorem record_columns:
  assumes "generate_sales_data S g = Inr (data, g')" and "r \<in> set data"
  shows "map fst r = documented_columns \<and> length r = 28 \<and> distinct (map fst r)"
proof -
  from assms obtain k d t where r: "r = create_record k d t"
    by (auto elim: generated_row)
  have c: "map fst r = documented_columns"
    unfolding r by (rule columns_create_record)
  have "length (map fst r) = 28"
    unfolding c by (simp add: documented_columns_def)
  then have "length r = 28" by simp
  moreover have "distinct (map fst r)"
    unfolding c by (simp add: documented_columns_def)
  ultimately show ?thesis using c by simp
qed

theorem record_columns_witness:
  "generate_sales_data example_sampler (np_seed example_sampler 42)
     = Inr (example_data,
            snd (projr (generate_sales_data example_sampler (np_seed example_sampler 42))))
   \<and> hd example_data \<in> set example_data
   \<and> map fst (hd example_data) = documented_columns \<and> length (hd example_data) = 28
   \<and> distinct (map fst (hd example_data))"
  using record_columns [OF example_data_eq hd_example_data] example_data_eq hd_example_data
  by blast

text \<open>The first record of the example run does not have 29 columns.\<close>

theorem record_columns_29_counterexample:
  "hd example_data \<in> set example_data \<and> length (hd example_data) \<noteq> 29"
proof -
  obtain k d t where "hd example_data = create_record k d t"
    using generated_row [OF example_data_eq hd_example_data] by metis
  then have "length (hd example_data) = 28"
    by (simp add: create_record_def)
  then show ?thesis using hd_example_data by simp
qed

section \<open>The mean of the daily draw\<close>


lemma is_weekend_iff: "is_weekend d \<longleftrightarrow> \<not> weekday d < 5"
proof -
  have "weekday d < 7" by (simp add: weekday_def)
  then have "weekday d = 0 \<or> weekday d = 1 \<or> weekday d = 2 \<or> weekday d = 3 \<or> weekday d = 4
      \<or> weekday d = 5 \<or> weekday d = 6" by arith
  then show ?thesis
    by (elim disjE) (simp_all add: is_weekend_def strftime_A_def)
qed

lemma seasonal_factor_override:
  "seasonal_factor d
     = (1 + 0.3 * sin (2 * pi * real (tm_yday d) / 365)) * month_override (month d)"
  by (simp add: seasonal_factor_def month_override_def Let_def)

text \<open>
  C4: the mean of the Poisson draw of a day is the base rate 15 times the sinusoid of the
  day of the year with the one override of the month (1.8 for November and December,
  else 1.3 for June and July, else 0.7 for January and February, else 1), times 1.2 on a
  weekday and 0.8 on a Saturday or Sunday, times the growth factor; and the number of
  transactions of the day is drawn with this mean.
\<close>

theorem poisson_mean_documented:
  "poisson_mean d = documented_mean d \<and>
   num_transactions S d g =
     (if documented_mean d < 0 then Inl ValueError
      else Inr (max 1 (fst (np_poisson S (documented_mean d) g)),
                snd (np_poisson S (documented_mean d) g)))"
proof -
  have m: "poisson_mean d = documented_mean d"
    unfolding poisson_mean_def documented_mean_def seasonal_factor_override
      daily_factor_def growth_factor_def base_transactions_def Let_def is_weekend_iff
    by simp
  show ?thesis
    unfolding num_transactions_def random_poisson_def m
    by (simp add: bind_err_def split: prod.splits)
qed

lemma start_date_mean:
  "documented_mean start_date = 15 * ((1 + 0.3 * sin (2 * pi / 365)) * 0.7) * 0.8 * 1"
proof -
  have "weekday start_date = 5"
    by (simp add: weekday_def toordinal_start)
  then have "is_weekend start_date" by (simp add: is_weekend_iff)
  moreover have "tm_yday start_date = 1" "month start_date = 1"
    by (simp_all add: tm_yday_def start_date_def days_before_month_def)
  ultimately show ?thesis
    by (simp add: documented_mean_def month_override_def days_between_def)
qed


section \<open>Rounding to cents\<close>


lemma round_half_even_floor: "\<lfloor>y\<rfloor> \<le> round_half_even y \<and> round_half_even y \<le> \<lfloor>y\<rfloor> + 1"
  by (simp add: round_half_even_def Let_def)

lemma round_half_even_ge:
  assumes "of_int n \<le> y"
  shows "n \<le> round_half_even y"
proof -
  from assms have "n \<le> \<lfloor>y\<rfloor>" by (simp add: le_floor_iff)
  with round_half_even_floor [of y] show ?thesis by linarith
qed

lemma round_half_even_le:
  assumes "y \<le> of_int n"
  shows "round_half_even y \<le> n"
proof (cases "y - of_int \<lfloor>y\<rfloor> < 1 / 2")
  case True
  then have "round_half_even y = \<lfloor>y\<rfloor>" by (simp add: round_half_even_def Let_def)
  moreover have "\<lfloor>y\<rfloor> \<le> n" using assms by (simp add: floor_le_iff)
  ultimately show ?thesis by simp
next
  case False
  then have "of_int \<lfloor>y\<rfloor> < y" by linarith
  with assms have "of_int \<lfloor>y\<rfloor> < (of_int n :: real)" by linarith
  then have "\<lfloor>y\<rfloor> < n" by simp
  with round_half_even_floor [of y] show ?thesis by linarith
qed

lemma round_half_even_of_int [simp]: "round_half_even (of_int n) = n"
  by (simp add: round_half_even_def)

lemma round_half_even_close: "\<bar>of_int (round_half_even y) - y\<bar> \<le> 1 / 2"
proof -
  have "of_int \<lfloor>y\<rfloor> \<le> y" "y < of_int \<lfloor>y\<rfloor> + 1" by linarith+
  then show ?thesis
    by (auto simp: round_half_even_def Let_def abs_le_iff)
qed

lemma py_round_ge: "of_int n / 100 \<le> x \<Longrightarrow> of_int n / 100 \<le> py_round x 2"
  using round_half_even_ge [of n "x * 100"] by (simp add: py_round_def field_simps)

lemma py_round_le: "x \<le> of_int n / 100 \<Longrightarrow> py_round x 2 \<le> of_int n / 100"
  using round_half_even_le [of "x * 100" n] by (simp add: py_round_def field_simps)

lemma py_round_close: "\<bar>py_round x 2 - x\<bar> \<le> 1 / 200"
proof -
  have "\<bar>py_round x 2 - x\<bar> = \<bar>of_int (round_half_even (x * 100)) - x * 100\<bar> / 100"
    by (simp add: py_round_def field_simps abs_if)
  also have "\<dots> \<le> (1 / 2) / 100"
    by (intro divide_right_mono round_half_even_close) simp
  finally show ?thesis by simp
qed

lemma py_round_cents [simp]: "py_round (of_int n / 100) 2 = of_int n / 100"
  by (simp add: py_round_def)


section \<open>The example run\<close>


lemma example_draws [simp]:
  "np_choice example_sampler a p g = (hd a, g + 1)"
  "np_uniform example_sampler lo hi g = (lo + (hi - lo) / 25, g + 1)"
  "np_random example_sampler g = (1 / 2, g + 1)"
  "np_randint example_sampler l h g = (l, g + 1)"
  "np_normal example_sampler mu sigma g = (mu, g + 1)"
  "np_poisson example_sampler lam g = (0, g + 1)"
  "np_seed example_sampler n = n"
  by (simp_all add: example_sampler_def)

lemma str_nat_digit: "n < 10 \<Longrightarrow> str_nat n = [digit_char n]"
  by (simp add: str_nat.simps)

lemma format_5_1: "format_0d 5 (Suc 0) = ''00001''"
  by (simp add: format_0d_def str_nat_digit digit_char_def eval_nat_numeral)

lemma hd_customers: "hd customers = ''CUST_00001''"
  by (simp add: customers_def hd_map format_5_1)

lemma example_choice:
  "random_choice example_sampler a p g = Inr (x, g') \<Longrightarrow> x = hd a \<and> g' = g + 1"
  by (auto simp: random_choice_def split: if_splits option.splits)

lemma example_randint:
  "random_randint example_sampler l h g = Inr (x, g') \<Longrightarrow> x = l \<and> g' = g + 1"
  by (auto simp: random_randint_def split: if_splits)

lemma example_transaction:
  assumes "sample_transaction example_sampler g = Inr (t, g')"
  shows "t = example_txn"
proof -
  from assms obtain g1 g2 g3 g4 base_price region_multiplier price_variation g5 bulk g6 g7
    cost_ratio g8 discounted g9 g10 g11 noise g12 min_days max_days g13 returned
  where c1: "random_choice example_sampler products None g = Inr (product t, g1)"
    and d1: "dict_get product_categories (product t) = Inr (category t)"
    and c2: "random_choice example_sampler regions (Some [0.35, 0.25, 0.20, 0.15, 0.05]) g1 = Inr (region t, g2)"
    and c3: "random_choice example_sampler sales_reps
           (Some [0.15, 0.12, 0.11, 0.10, 0.10, 0.09, 0.09, 0.08, 0.08, 0.08]) g2
         = Inr (sales_rep t, g3)"
    and c4: "random_choice example_sampler customers None g3 = Inr (customer_id t, g4)"
    and d2: "dict_get base_prices (product t) = Inr base_price"
    and d3: "dict_get region_multipliers (region t) = Inr region_multiplier"
    and d4: "dict_get rep_performance (sales_rep t) = Inr (rep_factor t)"
    and u1: "np_uniform example_sampler 0.85 1.25 g4 = (price_variation, g5)"
    and up: "unit_price t = base_price * region_multiplier * rep_factor t * price_variation"
    and r1: "np_random example_sampler g5 = (bulk, g6)"
    and q: "(if bulk < 0.1 then random_randint example_sampler 5 20 g6 else random_randint example_sampler 1 4 g6)
         = Inr (quantity t, g7)"
    and rev: "revenue t = unit_price t * of_int (quantity t)"
    and u2: "np_uniform example_sampler 0.4 0.7 g7 = (cost_ratio, g8)"
    and co: "cost t = revenue t * cost_ratio"
    and pr: "profit t = revenue t - cost t"
    and "revenue t \<noteq> 0"
    and pm: "profit_margin t = profit t / revenue t * 100"
    and r2: "np_random example_sampler g8 = (discounted, g9)"
    and dsc: "(if discounted < 0.2
          then let (discount_percent, g) = np_uniform example_sampler 5 25 g9
               in (discount_percent, revenue t * (discount_percent / 100), g)
          else (0, 0, g9)) = (discount_percent t, discount_amount t, g10)"
    and fr: "final_revenue t = revenue t - discount_amount t"
    and fp: "final_profit t = final_revenue t - cost t"
    and fm: "final_margin t =
           (if final_revenue t > 0 then final_profit t / final_revenue t * 100 else 0)"
    and sh: "(if region t \<noteq> ''North America'' then np_uniform example_sampler 5 25 g10
          else np_uniform example_sampler 2 10 g10) = (shipping_cost t, g11)"
    and tx: "tax_amount t =
           final_revenue t * (if region t = ''North America'' then 0.08 else 0.15)"
    and n: "np_normal example_sampler 0 0.3 g11 = (noise, g12)"
    and cs: "customer_satisfaction t =
           min 5.0 (max 1.0 (3.5 + ((final_margin t / 100) * 0.5 + (rep_factor t - 1) * 2) + noise))"
    and d5: "dict_get region_delivery_days (region t) = Inr (min_days, max_days)"
    and dd: "random_randint example_sampler min_days (max_days + 1) g12 = Inr (delivery_days t, g13)"
    and r3: "np_random example_sampler g13 = (returned, g')"
    and ir: "is_returned t
           = (returned < max 0.01 (0.15 - (customer_satisfaction t - 3) * 0.03))"
    by (rule sample_transaction_InrE)
  have p: "product t = ''Laptop''"
    using example_choice [OF c1] by (simp add: products_def)
  have r: "region t = ''North America''"
    using example_choice [OF c2] by (simp add: regions_def)
  have s: "sales_rep t = ''John Smith''"
    using example_choice [OF c3] by (simp add: sales_reps_def)
  have c: "customer_id t = ''CUST_00001''"
    using example_choice [OF c4] by (simp add: hd_customers)
  have ca: "category t = ''Electronics''"
    using d1 by (simp add: p dict_get_def product_categories_def)
  have bp: "base_price = 800"
    using d2 by (simp add: p dict_get_def base_prices_def)
  have rm: "region_multiplier = 1.2"
    using d3 by (simp add: r dict_get_def region_multipliers_def)
  have rf: "rep_factor t = 1.15"
    using d4 by (simp add: s dict_get_def rep_performance_def)
  have pv: "price_variation = 0.866" using u1 by simp
  have u: "unit_price t = 956.064" unfolding up bp rm rf pv by simp
  have b: "bulk = 1 / 2" using r1 by simp
  have qt: "quantity t = 1" using q example_randint [of 1 4 g6 "quantity t" g7] by (simp add: b)
  have rv: "revenue t = 956.064" unfolding rev u qt by simp
  have cr: "cost_ratio = 0.412" using u2 by simp
  have ct: "cost t = 393.898368" unfolding co rv cr by simp
  have pt: "profit t = 562.165632" unfolding pr rv ct by simp
  have pmt: "profit_margin t = 58.8" unfolding pm pt rv by simp
  have di: "discounted = 1 / 2" using r2 by simp
  have dp: "discount_percent t = 0" "discount_amount t = 0" using dsc by (simp_all add: di)
  have frt: "final_revenue t = 956.064" unfolding fr rv dp by simp
  have fpt: "final_profit t = 562.165632" unfolding fp frt ct by simp
  have fmt: "final_margin t = 58.8" unfolding fm frt fpt by simp
  have sc: "shipping_cost t = 2.32" using sh by (simp add: r)
  have ta: "tax_amount t = 76.48512" unfolding tx frt by (simp add: r)
  have no: "noise = 0" using n by simp
  have cst: "customer_satisfaction t = 4.094" unfolding cs fmt rf no by simp
  have md: "min_days = 1"
    using d5 by (simp add: r dict_get_def region_delivery_days_def)
  have ddt: "delivery_days t = 1" using example_randint [OF dd] md by simp
  have re: "returned = 1 / 2" using r3 by simp
  have irt: "is_returned t = False" unfolding ir cst re by simp
  show ?thesis
    unfolding example_txn_def
    by (rule txn.equality) (simp_all add: p r s c ca rf qt u rv ct pt pmt dp frt fpt fmt sc ta cst ddt irt)
qed


section \<open>Properties of every record\<close>


lemma row_get_create_record:
  "row_get (create_record k d t) ''Region'' = Some (PyStr (region t))"
  "row_get (create_record k d t) ''Product'' = Some (PyStr (product t))"
  "row_get (create_record k d t) ''Final_Revenue'' = Some (PyFloat (py_round (final_revenue t) 2))"
  "row_get (create_record k d t) ''Final_Margin'' = Some (PyFloat (py_round (final_margin t) 2))"
  "row_get (create_record k d t) ''Tax_Amount'' = Some (PyFloat (py_round (tax_amount t) 2))"
  "row_get (create_record k d t) ''Customer_Satisfaction''
     = Some (PyFloat (py_round (customer_satisfaction t) 2))"
  "row_get (create_record k d t) ''Order_ID'' = Some (PyStr (''ORD_'' @ format_0d 6 k))"
  "row_get (create_record k d t) ''Date'' = Some (PyStr (strftime_Ymd d))"
  "row_get (create_record k d t) ''Quantity'' = Some (PyInt (quantity t))"
  "row_get (create_record k d t) ''Is_Returned'' = Some (PyBool (is_returned t))"
  by (simp_all add: row_get_def create_record_def)

lemma satisfaction_clamped:
  assumes "sample_transaction S g = Inr (t, g')"
  shows "1 \<le> customer_satisfaction t \<and> customer_satisfaction t \<le> 5"
proof -
  from assms obtain x where "customer_satisfaction t = min 5.0 (max 1.0 x)"
    by (elim sample_transaction_InrE) blast
  then show ?thesis by simp
qed

lemma py_round_1_5:
  assumes "1 \<le> x" and "x \<le> 5"
  shows "1 \<le> py_round x 2" and "py_round x 2 \<le> 5"
  using py_round_ge [of 100 x] py_round_le [of x 500] assms by simp_all

lemma hd_example_record:
  obtains k d where "hd example_data = create_record k d example_txn"
proof -
  obtain k d t gi go where "hd example_data = create_record k d t"
    and "sample_transaction example_sampler gi = Inr (t, go)"
    using generated_row [OF example_data_eq hd_example_data] by metis
  with example_transaction that show thesis by blast
qed

lemma generated_row_ex:
  assumes "generate_sales_data S g = Inr (data, g')" and "r \<in> set data"
    and "\<And>k d t gi go. sample_transaction S gi = Inr (t, go) \<Longrightarrow> P k d t"
  shows "\<exists>k d t gi go. r = create_record k d t \<and> sample_transaction S gi = Inr (t, go) \<and> P k d t"
proof -
  from assms(1,2) obtain k d t gi go where "r = create_record k d t"
    and s: "sample_transaction S gi = Inr (t, go)"
    by (rule generated_row)
  with assms(3) [OF s] show ?thesis by blast
qed

subsection \<open>Customer satisfaction\<close>

text \<open>
  C8: in every record of a run the customer satisfaction lies in the closed interval from
  1 to 5, both before and after rounding to two decimals, whatever the sampler draws.
\<close>

theorem satisfaction_in_range:
  assumes "generate_sales_data S g = Inr (data, g')" and "r \<in> set data"
  shows "\<exists>k d t gi go. r = create_record k d t \<and> sample_transaction S gi = Inr (t, go) \<and>
           1 \<le> customer_satisfaction t \<and> customer_satisfaction t \<le> 5 \<and>
           row_get (create_record k d t) ''Customer_Satisfaction''
             = Some (PyFloat (py_round (customer_satisfaction t) 2)) \<and>
           1 \<le> py_round (customer_satisfaction t) 2 \<and>
           py_round (customer_satisfaction t) 2 \<le> 5"
proof (rule generated_row_ex [OF assms])
  fix k d t gi go
  assume s: "sample_transaction S gi = Inr (t, go)"
  note c = satisfaction_clamped [OF s]
  from c have "1 \<le> py_round (customer_satisfaction t) 2"
    "py_round (customer_satisfaction t) 2 \<le> 5"
    by (simp_all add: py_round_1_5)
  with c show "1 \<le> customer_satisfaction t \<and> customer_satisfaction t \<le> 5 \<and>
           row_get (create_record k d t) ''Customer_Satisfaction''
             = Some (PyFloat (py_round (customer_satisfaction t) 2)) \<and>
           1 \<le> py_round (customer_satisfaction t) 2 \<and>
           py_round (customer_satisfaction t) 2 \<le> 5"
    by (simp add: row_get_create_record)
qed

theorem satisfaction_in_range_witness:
  "generate_sales_data example_sampler (np_seed example_sampler 42)
     = Inr (example_data,
            snd (projr (generate_sales_data example_sampler (np_seed example_sampler 42))))
   \<and> hd example_data \<in> set example_data
   \<and> row_get (hd example_data) ''Customer_Satisfaction'' = Some (PyFloat 4.09)"
proof -
  from satisfaction_in_range [OF example_data_eq hd_example_data]
  obtain k d t gi go where "hd example_data = create_record k d t"
    and "sample_transaction example_sampler gi = Inr (t, go)"
    and "row_get (create_record k d t) ''Customer_Satisfaction''
             = Some (PyFloat (py_round (customer_satisfaction t) 2))"
    by blast
  moreover from this have "t = example_txn" by (simp add: example_transaction)
  moreover have "py_round (customer_satisfaction example_txn) 2 = 4.09"
    by (simp add: example_txn_def py_round_def round_half_even_def)
  ultimately show ?thesis
    using example_data_eq hd_example_data by simp
qed




lemma generated_hd:
  assumes "generate_sales_data S g = Inr (data, g')"
  obtains t gi go where "hd data = create_record 1 start_date t"
    and "sample_transaction S gi = Inr (t, go)"
proof -
  from assms obtain blocks where l: "length blocks = length dates"
    and b: "data = numbered_records 1 (dated dates blocks)"
    and c: "\<And>i. i < length dates \<Longrightarrow> \<exists>gi. int (length (blocks ! i))
                 = max 1 (fst (np_poisson S (poisson_mean (dates ! i)) gi))"
    and s: "\<And>ts t. ts \<in> set blocks \<Longrightarrow> t \<in> set ts
           \<Longrightarrow> \<exists>gi go. sample_transaction S gi = Inr (t, go)"
    by - (erule generate_sales_data_Inr, rule that; assumption)
  from l obtain ts bs where bs: "blocks = ts # bs"
    by (cases blocks) (simp_all add: length_dates)
  from c [of 0] obtain t ts' where ts: "ts = t # ts'"
    by (cases ts) (auto simp: bs length_dates)
  have dd: "dates = start_date # days_from (next_day start_date) 1095"
  proof -
    have "(1096::nat) = Suc 1095" by simp
    then show ?thesis unfolding dates_eq by (simp only: days_from.simps)
  qed
  have "hd data = create_record 1 start_date t"
    unfolding b dd bs ts by (simp add: dated_Cons numbered_records_Cons)
  moreover obtain gi go where "sample_transaction S gi = Inr (t, go)"
    using s [of ts t] by (auto simp: bs ts)
  ultimately show thesis by (rule that)
qed


lemma hd_example_data_eq: "hd example_data = create_record 1 start_date example_txn"
proof -
  obtain t gi go where "hd example_data = create_record 1 start_date t"
    and "sample_transaction example_sampler gi = Inr (t, go)"
    using generated_hd [OF example_data_eq] by blast
  with example_transaction [of gi t go] show ?thesis by simp
qed

lemma margins_under_contract:
  assumes ok: "sampler_ok S" and s: "sample_transaction S gi = Inr (t, go)"
  shows "profit_margin t = profit t / revenue t * 100"
    and "final_margin t = final_profit t / final_revenue t * 100"
proof -
  from s have "profit_margin t = profit t / revenue t * 100"
    by (elim sample_transaction_InrE) assumption
  moreover from s have "final_margin t =
           (if final_revenue t > 0 then final_profit t / final_revenue t * 100 else 0)"
    by (elim sample_transaction_InrE) assumption
  moreover note sample_transaction_facts(10) [OF ok s]
  ultimately
  show "profit_margin t = profit t / revenue t * 100"
    and "final_margin t = final_profit t / final_revenue t * 100"
    by simp_all
qed

subsection \<open>Revenue is positive\<close>

text \<open>
  C10: with a sampler that keeps the contract of the library, every transaction is
  sampled without an error, and in every record of the run the unit price is positive,
  the quantity is at least 1, the revenue is positive, the discount is less than the
  revenue and the final revenue is positive. So neither division divides by zero, and
  the final margin is the quotient, never the 0 of the guard.
\<close>

theorem revenue_positive:
  assumes "sampler_ok S"
  shows "(\<forall>gi. \<exists>t go. sample_transaction S gi = Inr (t, go)) \<and>
         (\<exists>data g'. generate_sales_data S g = Inr (data, g') \<and>
            (\<forall>r\<in>set data. \<exists>k d t gi go.
               r = create_record k d t \<and> sample_transaction S gi = Inr (t, go) \<and>
               (0 < unit_price t \<and> 1 \<le> quantity t \<and> 0 < revenue t \<and>
                discount_amount t < revenue t \<and> 0 < final_revenue t \<and>
                profit_margin t = profit t / revenue t * 100 \<and>
                final_margin t = final_profit t / final_revenue t * 100)))"
proof (intro conjI allI)
  fix gi
  show "\<exists>t go. sample_transaction S gi = Inr (t, go)"
    using sample_transaction_total [OF sampler_ok_weak [OF assms], of gi] by auto
next
  obtain data g' where run: "generate_sales_data S g = Inr (data, g')"
    using generate_sales_data_total [OF sampler_ok_weak [OF assms]] by blast
  have "\<exists>k d t gi go.
               r = create_record k d t \<and> sample_transaction S gi = Inr (t, go) \<and>
               (0 < unit_price t \<and> 1 \<le> quantity t \<and> 0 < revenue t \<and>
                discount_amount t < revenue t \<and> 0 < final_revenue t \<and>
                profit_margin t = profit t / revenue t * 100 \<and>
                final_margin t = final_profit t / final_revenue t * 100)"
    if "r \<in> set data" for r
  proof (rule generated_row_ex [OF run that])
    fix k d t gi go
    assume s: "sample_transaction S gi = Inr (t, go)"
    note f = sample_transaction_facts [OF assms s]
    from f(7,9) have "discount_amount t < revenue t" by simp
    with f(5,6,7,10) margins_under_contract [OF assms s]
    show "0 < unit_price t \<and> 1 \<le> quantity t \<and> 0 < revenue t \<and>
                discount_amount t < revenue t \<and> 0 < final_revenue t \<and>
                profit_margin t = profit t / revenue t * 100 \<and>
                final_margin t = final_profit t / final_revenue t * 100"
      by simp
  qed
  with run show "\<exists>data g'. generate_sales_data S g = Inr (data, g') \<and>
            (\<forall>r\<in>set data. \<exists>k d t gi go.
               r = create_record k d t \<and> sample_transaction S gi = Inr (t, go) \<and>
               (0 < unit_price t \<and> 1 \<le> quantity t \<and> 0 < revenue t \<and>
                discount_amount t < revenue t \<and> 0 < final_revenue t \<and>
                profit_margin t = profit t / revenue t * 100 \<and>
                final_margin t = final_profit t / final_revenue t * 100))"
    by blast
qed

theorem revenue_positive_witness:
  "sampler_ok example_sampler \<and> hd example_data \<in> set example_data \<and>
   hd example_data = create_record 1 start_date example_txn \<and>
   0 < revenue example_txn \<and> 0 < final_revenue example_txn \<and>
   profit_margin example_txn = profit example_txn / revenue example_txn * 100 \<and>
   final_margin example_txn = final_profit example_txn / final_revenue example_txn * 100"
proof -
  from revenue_positive [OF sampler_ok_example, of "np_seed example_sampler 42"]
  obtain data g' where
    run: "generate_sales_data example_sampler (np_seed example_sampler 42) = Inr (data, g')"
    and every: "\<forall>r\<in>set data. \<exists>k d t gi go.
               r = create_record k d t \<and> sample_transaction example_sampler gi = Inr (t, go) \<and>
               (0 < unit_price t \<and> 1 \<le> quantity t \<and> 0 < revenue t \<and>
                discount_amount t < revenue t \<and> 0 < final_revenue t \<and>
                profit_margin t = profit t / revenue t * 100 \<and>
                final_margin t = final_profit t / final_revenue t * 100)"
    by blast
  from run example_data_eq have "data = example_data" by simp
  with every hd_example_data obtain t gi go where
    s: "sample_transaction example_sampler gi = Inr (t, go)"
    and p: "0 < unit_price t \<and> 1 \<le> quantity t \<and> 0 < revenue t \<and>
                discount_amount t < revenue t \<and> 0 < final_revenue t \<and>
                profit_margin t = profit t / revenue t * 100 \<and>
                final_margin t = final_profit t / final_revenue t * 100"
    by blast
  from p show ?thesis
    unfolding example_transaction [OF s]
    using sampler_ok_example hd_example_data hd_example_data_eq by blast
qed


subsection \<open>The final margin\<close>

lemma zero_revenue_draws [simp]:
  "np_choice zero_revenue_sampler a p g = (hd a, g + 1)"
  "np_uniform zero_revenue_sampler lo hi g
     = (if lo = 5 \<and> hi = 25 then 100 else lo + (hi - lo) / 25, g + 1)"
  "np_random zero_revenue_sampler g = (0.15, g + 1)"
  "np_randint zero_revenue_sampler l h g = (l, g + 1)"
  "np_normal zero_revenue_sampler mu sigma g = (mu, g + 1)"
  "np_poisson zero_revenue_sampler lam g = (0, g + 1)"
  "np_seed zero_revenue_sampler n = n"
  by (simp_all add: zero_revenue_sampler_def)

lemma sampler_weak_ok_zero_revenue: "sampler_weak_ok zero_revenue_sampler"
  unfolding sampler_weak_ok_def
  by (simp add: hd_in_set)

lemma zero_revenue_choice:
  "random_choice zero_revenue_sampler a p g = Inr (x, g') \<Longrightarrow> x = hd a \<and> g' = g + 1"
  by (auto simp: random_choice_def split: if_splits option.splits)

lemma zero_revenue_randint:
  "random_randint zero_revenue_sampler l h g = Inr (x, g') \<Longrightarrow> x = l \<and> g' = g + 1"
  by (auto simp: random_randint_def split: if_splits)

lemma zero_revenue_transaction:
  assumes "sample_transaction zero_revenue_sampler g = Inr (t, g')"
  shows "t = zero_revenue_txn"
proof -
  from assms obtain g1 g2 g3 g4 base_price region_multiplier price_variation g5 bulk g6 g7
    cost_ratio g8 discounted g9 g10 g11 noise g12 min_days max_days g13 returned
  where c1: "random_choice zero_revenue_sampler products None g = Inr (product t, g1)"
    and d1: "dict_get product_categories (product t) = Inr (category t)"
    and c2: "random_choice zero_revenue_sampler regions (Some [0.35, 0.25, 0.20, 0.15, 0.05]) g1 = Inr (region t, g2)"
    and c3: "random_choice zero_revenue_sampler sales_reps
           (Some [0.15, 0.12, 0.11, 0.10, 0.10, 0.09, 0.09, 0.08, 0.08, 0.08]) g2
         = Inr (sales_rep t, g3)"
    and c4: "random_choice zero_revenue_sampler customers None g3 = Inr (customer_id t, g4)"
    and d2: "dict_get base_prices (product t) = Inr base_price"
    and d3: "dict_get region_multipliers (region t) = Inr region_multiplier"
    and d4: "dict_get rep_performance (sales_rep t) = Inr (rep_factor t)"
    and u1: "np_uniform zero_revenue_sampler 0.85 1.25 g4 = (price_variation, g5)"
    and up: "unit_price t = base_price * region_multiplier * rep_factor t * price_variation"
    and r1: "np_random zero_revenue_sampler g5 = (bulk, g6)"
    and q: "(if bulk < 0.1 then random_randint zero_revenue_sampler 5 20 g6 else random_randint zero_revenue_sampler 1 4 g6)
         = Inr (quantity t, g7)"
    and rev: "revenue t = unit_price t * of_int (quantity t)"
    and u2: "np_uniform zero_revenue_sampler 0.4 0.7 g7 = (cost_ratio, g8)"
    and co: "cost t = revenue t * cost_ratio"
    and pr: "profit t = revenue t - cost t"
    and "revenue t \<noteq> 0"
    and pm: "profit_margin t = profit t / revenue t * 100"
    and r2: "np_random zero_revenue_sampler g8 = (discounted, g9)"
    and dsc: "(if discounted < 0.2
          then let (discount_percent, g) = np_uniform zero_revenue_sampler 5 25 g9
               in (discount_percent, revenue t * (discount_percent / 100), g)
          else (0, 0, g9)) = (discount_percent t, discount_amount t, g10)"
    and fr: "final_revenue t = revenue t - discount_amount t"
    and fp: "final_profit t = final_revenue t - cost t"
    and fm: "final_margin t =
           (if final_revenue t > 0 then final_profit t / final_revenue t * 100 else 0)"
    and sh: "(if region t \<noteq> ''North America'' then np_uniform zero_revenue_sampler 5 25 g10
          else np_uniform zero_revenue_sampler 2 10 g10) = (shipping_cost t, g11)"
    and tx: "tax_amount t =
           final_revenue t * (if region t = ''North America'' then 0.08 else 0.15)"
    and n: "np_normal zero_revenue_sampler 0 0.3 g11 = (noise, g12)"
    and cs: "customer_satisfaction t =
           min 5.0 (max 1.0 (3.5 + ((final_margin t / 100) * 0.5 + (rep_factor t - 1) * 2) + noise))"
    and d5: "dict_get region_delivery_days (region t) = Inr (min_days, max_days)"
    and dd: "random_randint zero_revenue_sampler min_days (max_days + 1) g12 = Inr (delivery_days t, g13)"
    and r3: "np_random zero_revenue_sampler g13 = (returned, g')"
    and ir: "is_returned t
           = (returned < max 0.01 (0.15 - (customer_satisfaction t - 3) * 0.03))"
    by (rule sample_transaction_InrE)
  have p: "product t = ''Laptop''"
    using zero_revenue_choice [OF c1] by (simp add: products_def)
  have r: "region t = ''North America''"
    using zero_revenue_choice [OF c2] by (simp add: regions_def)
  have s: "sales_rep t = ''John Smith''"
    using zero_revenue_choice [OF c3] by (simp add: sales_reps_def)
  have c: "customer_id t = ''CUST_00001''"
    using zero_revenue_choice [OF c4] by (simp add: hd_customers)
  have ca: "category t = ''Electronics''"
    using d1 by (simp add: p dict_get_def product_categories_def)
  have bp: "base_price = 800"
    using d2 by (simp add: p dict_get_def base_prices_def)
  have rm: "region_multiplier = 1.2"
    using d3 by (simp add: r dict_get_def region_multipliers_def)
  have rf: "rep_factor t = 1.15"
    using d4 by (simp add: s dict_get_def rep_performance_def)
  have pv: "price_variation = 0.866" using u1 by simp
  have u: "unit_price t = 956.064" unfolding up bp rm rf pv by simp
  have b: "bulk = 0.15" using r1 by simp
  have qt: "quantity t = 1"
    using q zero_revenue_randint [of 1 4 g6 "quantity t" g7] by (simp add: b)
  have rv: "revenue t = 956.064" unfolding rev u qt by simp
  have cr: "cost_ratio = 0.412" using u2 by simp
  have ct: "cost t = 393.898368" unfolding co rv cr by simp
  have pt: "profit t = 562.165632" unfolding pr rv ct by simp
  have pmt: "profit_margin t = 58.8" unfolding pm pt rv by simp
  have di: "discounted = 0.15" using r2 by simp
  have dp: "discount_percent t = 100" "discount_amount t = 956.064"
    using dsc by (simp_all add: di rv)
  have frt: "final_revenue t = 0" unfolding fr rv dp by simp
  have fpt: "final_profit t = - 393.898368" unfolding fp frt ct by simp
  have fmt: "final_margin t = 0" unfolding fm frt by simp
  have sc: "shipping_cost t = 2.32" using sh by (simp add: r)
  have ta: "tax_amount t = 0" unfolding tx frt by simp
  have no: "noise = 0" using n by simp
  have cst: "customer_satisfaction t = 3.8" unfolding cs fmt rf no by simp
  have md: "min_days = 1"
    using d5 by (simp add: r dict_get_def region_delivery_days_def)
  have ddt: "delivery_days t = 1" using zero_revenue_randint [OF dd] md by simp
  have re: "returned = 0.15" using r3 by simp
  have irt: "is_returned t = False" unfolding ir cst re by simp
  show ?thesis
    unfolding zero_revenue_txn_def
    by (rule txn.equality) (simp_all add: p r s c ca rf qt u rv ct pt pmt dp frt fpt fmt sc ta cst ddt irt)
qed

lemma zero_revenue_data_eq:
  "generate_sales_data zero_revenue_sampler (np_seed zero_revenue_sampler 42)
     = Inr (zero_revenue_data,
            snd (projr (generate_sales_data zero_revenue_sampler
                          (np_seed zero_revenue_sampler 42))))"
  using generate_sales_data_total [OF sampler_weak_ok_zero_revenue,
      of "np_seed zero_revenue_sampler 42"]
  by (auto simp: zero_revenue_data_def)

lemma hd_zero_revenue_data: "hd zero_revenue_data \<in> set zero_revenue_data"
  using generated_nonempty [OF zero_revenue_data_eq] by simp

lemma hd_zero_revenue_data_eq:
  "hd zero_revenue_data = create_record 1 start_date zero_revenue_txn"
proof -
  obtain t gi go where "hd zero_revenue_data = create_record 1 start_date t"
    and "sample_transaction zero_revenue_sampler gi = Inr (t, go)"
    using generated_hd [OF zero_revenue_data_eq] by blast
  with zero_revenue_transaction [of gi t go] show ?thesis by simp
qed

lemma final_margin_cases:
  assumes "sample_transaction S gi = Inr (t, go)"
  shows "final_revenue t = 0 \<longrightarrow> final_margin t = 0"
    and "0 < final_revenue t \<longrightarrow> final_margin t = final_profit t / final_revenue t * 100"
proof -
  from assms have "final_margin t =
           (if final_revenue t > 0 then final_profit t / final_revenue t * 100 else 0)"
    by (elim sample_transaction_InrE) assumption
  then show "final_revenue t = 0 \<longrightarrow> final_margin t = 0"
    and "0 < final_revenue t \<longrightarrow> final_margin t = final_profit t / final_revenue t * 100"
    by simp_all
qed

text \<open>
  C2: computing the final margin raises no division by zero. With a sampler that keeps
  the weak contract, under which the discount may be the whole revenue, a run returns
  its records; and in every record of a run of any sampler the final margin is 0 if the
  final revenue is 0, and it is the final profit divided by the final revenue, times
  100, if the final revenue is positive. With a sampler that keeps the contract of the
  library the final revenue of every record is positive.
\<close>

theorem final_margin_guard:
  "(sampler_weak_ok S \<longrightarrow> (\<exists>data g'. generate_sales_data S g = Inr (data, g'))) \<and>
   (generate_sales_data S g = Inr (data, g') \<and> r \<in> set data \<longrightarrow>
      (\<exists>k d t gi go. r = create_record k d t \<and> sample_transaction S gi = Inr (t, go) \<and>
         ((final_revenue t = 0 \<longrightarrow> final_margin t = 0) \<and>
          (0 < final_revenue t \<longrightarrow>
             final_margin t = final_profit t / final_revenue t * 100) \<and>
          (sampler_ok S \<longrightarrow> 0 < final_revenue t) \<and>
          row_get (create_record k d t) ''Final_Margin''
            = Some (PyFloat (py_round (final_margin t) 2)))))"
proof (intro conjI impI)
  assume "sampler_weak_ok S"
  then show "\<exists>data g'. generate_sales_data S g = Inr (data, g')"
    by (rule generate_sales_data_total)
next
  assume a: "generate_sales_data S g = Inr (data, g') \<and> r \<in> set data"
  then have run: "generate_sales_data S g = Inr (data, g')" and r: "r \<in> set data"
    by simp_all
  show "\<exists>k d t gi go. r = create_record k d t \<and> sample_transaction S gi = Inr (t, go) \<and>
         ((final_revenue t = 0 \<longrightarrow> final_margin t = 0) \<and>
          (0 < final_revenue t \<longrightarrow>
             final_margin t = final_profit t / final_revenue t * 100) \<and>
          (sampler_ok S \<longrightarrow> 0 < final_revenue t) \<and>
          row_get (create_record k d t) ''Final_Margin''
            = Some (PyFloat (py_round (final_margin t) 2)))"
  proof (rule generated_row_ex [OF run r])
    fix k d t gi go
    assume s: "sample_transaction S gi = Inr (t, go)"
    have "sampler_ok S \<longrightarrow> 0 < final_revenue t"
      using sample_transaction_facts(10) [OF _ s] by blast
    with final_margin_cases [OF s]
    show "(final_revenue t = 0 \<longrightarrow> final_margin t = 0) \<and>
          (0 < final_revenue t \<longrightarrow>
             final_margin t = final_profit t / final_revenue t * 100) \<and>
          (sampler_ok S \<longrightarrow> 0 < final_revenue t) \<and>
          row_get (create_record k d t) ''Final_Margin''
            = Some (PyFloat (py_round (final_margin t) 2))"
      by (simp add: row_get_create_record)
  qed
qed


theorem final_margin_guard_witness:
  "sampler_weak_ok zero_revenue_sampler \<and>
   generate_sales_data zero_revenue_sampler (np_seed zero_revenue_sampler 42)
     = Inr (zero_revenue_data,
            snd (projr (generate_sales_data zero_revenue_sampler
                          (np_seed zero_revenue_sampler 42)))) \<and>
   hd zero_revenue_data \<in> set zero_revenue_data \<and>
   hd zero_revenue_data = create_record 1 start_date zero_revenue_txn \<and>
   final_revenue zero_revenue_txn = 0 \<and> final_margin zero_revenue_txn = 0 \<and>
   row_get (hd zero_revenue_data) ''Final_Margin'' = Some (PyFloat 0) \<and>
   sampler_ok example_sampler \<and> hd example_data \<in> set example_data \<and>
   hd example_data = create_record 1 start_date example_txn \<and>
   0 < final_revenue example_txn \<and>
   final_margin example_txn = final_profit example_txn / final_revenue example_txn * 100 \<and>
   row_get (hd example_data) ''Final_Margin'' = Some (PyFloat 58.8)"
proof -
  let ?gz = "snd (projr (generate_sales_data zero_revenue_sampler
                          (np_seed zero_revenue_sampler 42)))"
  let ?ge = "snd (projr (generate_sales_data example_sampler (np_seed example_sampler 42)))"
  note z = final_margin_guard [of zero_revenue_sampler "np_seed zero_revenue_sampler 42"
      zero_revenue_data ?gz "hd zero_revenue_data"]
  note e = final_margin_guard [of example_sampler "np_seed example_sampler 42"
      example_data ?ge "hd example_data"]
  from z zero_revenue_data_eq hd_zero_revenue_data obtain k d t gi go where
    "sample_transaction zero_revenue_sampler gi = Inr (t, go)"
    and "final_revenue t = 0 \<longrightarrow> final_margin t = 0"
    and "row_get (create_record k d t) ''Final_Margin''
            = Some (PyFloat (py_round (final_margin t) 2))"
    by blast
  moreover from this have "t = zero_revenue_txn" by (simp add: zero_revenue_transaction)
  moreover have z0: "final_revenue zero_revenue_txn = 0" by (simp add: zero_revenue_txn_def)
  ultimately have zm: "final_margin zero_revenue_txn = 0" by simp
  have zr: "row_get (hd zero_revenue_data) ''Final_Margin'' = Some (PyFloat 0)"
    by (simp add: hd_zero_revenue_data_eq row_get_create_record zm py_round_def
        round_half_even_def)
  from e example_data_eq hd_example_data sampler_ok_example obtain k' d' t' gi' go' where
    "sample_transaction example_sampler gi' = Inr (t', go')"
    and "0 < final_revenue t' \<longrightarrow> final_margin t' = final_profit t' / final_revenue t' * 100"
    and "0 < final_revenue t'"
    by blast
  moreover from this have "t' = example_txn" by (simp add: example_transaction)
  ultimately have ep: "0 < final_revenue example_txn"
    and em: "final_margin example_txn
        = final_profit example_txn / final_revenue example_txn * 100"
    by simp_all
  have er: "row_get (hd example_data) ''Final_Margin'' = Some (PyFloat 58.8)"
    by (simp add: hd_example_data_eq row_get_create_record)
      (simp add: example_txn_def py_round_def round_half_even_def)
  from sampler_weak_ok_zero_revenue zero_revenue_data_eq hd_zero_revenue_data
    hd_zero_revenue_data_eq z0 zm zr sampler_ok_example hd_example_data hd_example_data_eq
    ep em er
  show ?thesis by blast
qed

lemma tax_rounding:
  assumes "0 \<le> rate"
  shows "\<bar>py_round (x * rate) 2 - py_round x 2 * rate\<bar> \<le> (1 + rate) / 200"
proof -
  have "\<bar>py_round (x * rate) 2 - py_round x 2 * rate\<bar>
      \<le> \<bar>py_round (x * rate) 2 - x * rate\<bar> + \<bar>x * rate - py_round x 2 * rate\<bar>"
    by arith
  also have "\<bar>x * rate - py_round x 2 * rate\<bar> = \<bar>py_round x 2 - x\<bar> * rate"
    using assms by (simp add: abs_mult left_diff_distrib [symmetric] abs_minus_commute)
  also have "\<bar>py_round (x * rate) 2 - x * rate\<bar> + \<bar>py_round x 2 - x\<bar> * rate
      \<le> 1 / 200 + (1 / 200) * rate"
    by (intro add_mono mult_right_mono py_round_close assms)
  finally show ?thesis by (simp add: field_simps)
qed

subsection \<open>The tax amount\<close>

text \<open>
  C5, amended: in every record of a run the tax amount before rounding is the final
  revenue before rounding times the rate of the region, 0.08 for North America and 0.15
  for the other regions. The columns hold both amounts rounded to two decimals, each on
  its own, so the tax column is the rounded product, and it differs from the final
  revenue column times the rate by at most \<open>(1 + rate) / 200\<close>.
\<close>

theorem tax_amount_rate:
  assumes "generate_sales_data S g = Inr (data, g')" and "r \<in> set data"
  shows "\<exists>k d t gi go. r = create_record k d t \<and> sample_transaction S gi = Inr (t, go) \<and>
           (tax_amount t = final_revenue t * documented_tax_rate (region t) \<and>
            row_get (create_record k d t) ''Region'' = Some (PyStr (region t)) \<and>
            row_get (create_record k d t) ''Final_Revenue''
              = Some (PyFloat (py_round (final_revenue t) 2)) \<and>
            row_get (create_record k d t) ''Tax_Amount''
              = Some (PyFloat (py_round (final_revenue t * documented_tax_rate (region t)) 2)) \<and>
            \<bar>py_round (final_revenue t * documented_tax_rate (region t)) 2
               - py_round (final_revenue t) 2 * documented_tax_rate (region t)\<bar>
              \<le> (1 + documented_tax_rate (region t)) / 200)"
proof (rule generated_row_ex [OF assms])
  fix k d t gi go
  assume s: "sample_transaction S gi = Inr (t, go)"
  from s have "tax_amount t
      = final_revenue t * (if region t = ''North America'' then 0.08 else 0.15)"
    by (elim sample_transaction_InrE) assumption
  then have t: "tax_amount t = final_revenue t * documented_tax_rate (region t)"
    by (simp add: documented_tax_rate_def)
  have "0 \<le> documented_tax_rate (region t)"
    by (simp add: documented_tax_rate_def)
  from tax_rounding [OF this] t
  show "tax_amount t = final_revenue t * documented_tax_rate (region t) \<and>
            row_get (create_record k d t) ''Region'' = Some (PyStr (region t)) \<and>
            row_get (create_record k d t) ''Final_Revenue''
              = Some (PyFloat (py_round (final_revenue t) 2)) \<and>
            row_get (create_record k d t) ''Tax_Amount''
              = Some (PyFloat (py_round (final_revenue t * documented_tax_rate (region t)) 2)) \<and>
            \<bar>py_round (final_revenue t * documented_tax_rate (region t)) 2
               - py_round (final_revenue t) 2 * documented_tax_rate (region t)\<bar>
              \<le> (1 + documented_tax_rate (region t)) / 200"
    by (simp add: row_get_create_record)
qed

lemma example_rounded:
  "py_round (final_revenue example_txn) 2 = 956.06"
  "py_round (tax_amount example_txn) 2 = 76.49"
  "py_round (956.06 * 0.08) 2 = 76.48"
  by (simp_all add: example_txn_def py_round_def round_half_even_def)

theorem tax_amount_rate_witness:
  "generate_sales_data example_sampler (np_seed example_sampler 42)
     = Inr (example_data,
            snd (projr (generate_sales_data example_sampler (np_seed example_sampler 42))))
   \<and> hd example_data \<in> set example_data
   \<and> hd example_data = create_record 1 start_date example_txn
   \<and> tax_amount example_txn = final_revenue example_txn * 0.08
   \<and> row_get (hd example_data) ''Tax_Amount'' = Some (PyFloat 76.49)
   \<and> \<bar>76.49 - 956.06 * 0.08\<bar> \<le> (1.08 :: real) / 200"
proof -
  from tax_amount_rate [OF example_data_eq hd_example_data]
  obtain k d t gi go where r: "hd example_data = create_record k d t"
    and s: "sample_transaction example_sampler gi = Inr (t, go)"
    and p: "tax_amount t = final_revenue t * documented_tax_rate (region t) \<and>
            row_get (create_record k d t) ''Region'' = Some (PyStr (region t)) \<and>
            row_get (create_record k d t) ''Final_Revenue''
              = Some (PyFloat (py_round (final_revenue t) 2)) \<and>
            row_get (create_record k d t) ''Tax_Amount''
              = Some (PyFloat (py_round (final_revenue t * documented_tax_rate (region t)) 2)) \<and>
            \<bar>py_round (final_revenue t * documented_tax_rate (region t)) 2
               - py_round (final_revenue t) 2 * documented_tax_rate (region t)\<bar>
              \<le> (1 + documented_tax_rate (region t)) / 200"
    by blast
  have rt: "documented_tax_rate (region example_txn) = 0.08"
    by (simp add: documented_tax_rate_def example_txn_def)
  have tx: "final_revenue example_txn * 0.08 = tax_amount example_txn"
    by (simp add: example_txn_def)
  from p r show ?thesis
    unfolding example_transaction [OF s] rt tx example_rounded
    using example_data_eq hd_example_data hd_example_data_eq by simp
qed

text \<open>In the first record of the example run the tax column is not the final revenue
  column times 0.08, also not when that product is rounded.\<close>

theorem tax_amount_counterexample:
  "hd example_data \<in> set example_data \<and>
   row_get (hd example_data) ''Region'' = Some (PyStr ''North America'') \<and>
   row_get (hd example_data) ''Final_Revenue'' = Some (PyFloat 956.06) \<and>
   row_get (hd example_data) ''Tax_Amount'' = Some (PyFloat 76.49) \<and>
   (76.49 :: real) \<noteq> 956.06 * 0.08 \<and> (76.49 :: real) \<noteq> py_round (956.06 * 0.08) 2"
proof (intro conjI)
  show "hd example_data \<in> set example_data" by (rule hd_example_data)
  show "row_get (hd example_data) ''Region'' = Some (PyStr ''North America'')"
    by (simp add: hd_example_data_eq row_get_create_record) (simp add: example_txn_def)
  show "row_get (hd example_data) ''Final_Revenue'' = Some (PyFloat 956.06)"
    by (simp add: hd_example_data_eq row_get_create_record example_rounded)
  show "row_get (hd example_data) ''Tax_Amount'' = Some (PyFloat 76.49)"
    by (simp add: hd_example_data_eq row_get_create_record example_rounded)
  show "(76.49 :: real) \<noteq> 956.06 * 0.08" by simp
  show "(76.49 :: real) \<noteq> py_round (956.06 * 0.08) 2"
    unfolding example_rounded by simp
qed


section \<open>Order identifiers\<close>


lemma digit_value_digit_char: "d < 10 \<Longrightarrow> digit_value (digit_char d) = d"
proof -
  assume "d < 10"
  then have "d = 0 \<or> d = 1 \<or> d = 2 \<or> d = 3 \<or> d = 4 \<or> d = 5 \<or> d = 6 \<or> d = 7 \<or> d = 8 \<or> d = 9"
    by arith
  then show ?thesis
    by (elim disjE) (simp_all add: digit_value_def digit_char_def)
qed

lemma parse_nat_snoc: "parse_nat (s @ [c]) = 10 * parse_nat s + digit_value c"
  by (simp add: parse_nat_def)

lemma parse_nat_str_nat: "parse_nat (str_nat n) = n"
proof (induction n rule: str_nat.induct)
  case (1 n)
  show ?case
  proof (cases "n < 10")
    case True
    then show ?thesis
      by (simp add: str_nat.simps [of n] parse_nat_def digit_value_digit_char)
  next
    case False
    then have "parse_nat (str_nat n) = 10 * (n div 10) + n mod 10"
      using "1.IH" by (simp add: str_nat.simps [of n] parse_nat_snoc digit_value_digit_char)
    then show ?thesis by simp
  qed
qed

lemma parse_nat_zeros: "parse_nat (replicate k (CHR ''0'') @ s) = parse_nat s"
proof -
  have "foldl (\<lambda>a c. 10 * a + digit_value c) 0 (replicate k (CHR ''0'')) = 0"
    by (induction k) (simp_all add: digit_value_def)
  then show ?thesis by (simp add: parse_nat_def)
qed

lemma parse_nat_format: "parse_nat (format_0d w n) = n"
  by (simp add: format_0d_def parse_nat_zeros parse_nat_str_nat)

lemma length_str_nat: "n < 10 ^ k \<Longrightarrow> 0 < k \<Longrightarrow> length (str_nat n) \<le> k"
proof (induction n arbitrary: k rule: str_nat.induct)
  case (1 n)
  show ?case
  proof (cases "n < 10")
    case True
    with "1.prems" show ?thesis by (simp add: str_nat.simps [of n])
  next
    case False
    obtain j where k: "k = Suc j" using "1.prems"(2) by (cases k) auto
    from False "1.prems"(1) have "0 < j" by (cases j) (auto simp: k)
    moreover from "1.prems"(1) have "n div 10 < 10 ^ j"
      by (simp add: k less_mult_imp_div_less mult.commute)
    ultimately have "length (str_nat (n div 10)) \<le> j"
      using "1.IH" [OF False] by simp
    with False show ?thesis by (simp add: str_nat.simps [of n] k)
  qed
qed

lemma length_format_6: "n < 1000000 \<Longrightarrow> length (format_0d 6 n) = 6"
  using length_str_nat [of n 6] by (simp add: format_0d_def)

lemma format_6_1: "format_0d 6 (Suc 0) = ''000001''"
  by (simp add: format_0d_def str_nat_digit digit_char_def eval_nat_numeral)

lemma order_number_create_record: "order_number (create_record k d t) = Some k"
  by (simp add: order_number_def row_get_create_record parse_nat_format)

lemma numbered_records_nth:
  "i < length dts \<Longrightarrow>
     numbered_records k dts ! i = create_record (k + i) (fst (dts ! i)) (snd (dts ! i))"
  by (simp add: numbered_records_def case_prod_beta)

text \<open>
  C6: the order identifiers of a run are \<open>ORD_\<close> followed by the position of the record,
  counted from 1, in decimal digits padded with zeros to six characters. The first is
  \<open>ORD_000001\<close>, the number of each record is one more than the number of the record
  before it, and no two records have the same identifier.
\<close>

theorem order_ids_sequential:
  assumes "generate_sales_data S g = Inr (data, g')"
  shows "data \<noteq> [] \<and>
         row_get (hd data) ''Order_ID'' = Some (PyStr ''ORD_000001'') \<and>
         (\<forall>i<length data.
            row_get (data ! i) ''Order_ID'' = Some (PyStr (''ORD_'' @ format_0d 6 (i + 1))) \<and>
            order_number (data ! i) = Some (i + 1) \<and>
            (i + 1 < 1000000 \<longrightarrow> length (format_0d 6 (i + 1)) = 6)) \<and>
         (\<forall>i. i + 1 < length data \<longrightarrow>
            order_number (data ! (i + 1)) = map_option Suc (order_number (data ! i))) \<and>
         distinct (map (\<lambda>r. row_get r ''Order_ID'') data)"
proof -
  from assms obtain blocks where b: "data = numbered_records 1 (dated dates blocks)"
    by (rule generate_sales_data_Inr)
  define dts where "dts = dated dates blocks"
  have len: "length data = length dts" by (simp add: b dts_def)
  have nth: "data ! i = create_record (i + 1) (fst (dts ! i)) (snd (dts ! i))"
    if "i < length data" for i
    using that numbered_records_nth [of i dts 1] by (simp add: b dts_def len)
  have ne: "data \<noteq> []" by (rule generated_nonempty [OF assms])
  then have "hd data = data ! 0" by (simp add: hd_conv_nth)
  with nth [of 0] ne have first: "row_get (hd data) ''Order_ID'' = Some (PyStr ''ORD_000001'')"
    by (simp add: row_get_create_record format_6_1)
  have each: "row_get (data ! i) ''Order_ID'' = Some (PyStr (''ORD_'' @ format_0d 6 (i + 1))) \<and>
            order_number (data ! i) = Some (i + 1) \<and>
            (i + 1 < 1000000 \<longrightarrow> length (format_0d 6 (i + 1)) = 6)"
    if "i < length data" for i
    using nth [OF that]
    by (simp add: row_get_create_record order_number_create_record length_format_6)
  have step: "order_number (data ! (i + 1)) = map_option Suc (order_number (data ! i))"
    if "i + 1 < length data" for i
    using each [of i] each [of "i + 1"] that by simp
  have dist: "distinct (map (\<lambda>r. row_get r ''Order_ID'') data)"
    unfolding distinct_conv_nth length_map
  proof (intro allI impI)
    fix i j
    assume ij: "i < length data" "j < length data" "i \<noteq> j"
    show "map (\<lambda>r. row_get r ''Order_ID'') data ! i \<noteq> map (\<lambda>r. row_get r ''Order_ID'') data ! j"
    proof
      assume "map (\<lambda>r. row_get r ''Order_ID'') data ! i = map (\<lambda>r. row_get r ''Order_ID'') data ! j"
      with ij each [of i] each [of j] have "format_0d 6 (i + 1) = format_0d 6 (j + 1)"
        by simp
      then have "parse_nat (format_0d 6 (i + 1)) = parse_nat (format_0d 6 (j + 1))"
        by simp
      with ij(3) show False by (simp add: parse_nat_format)
    qed
  qed
  from ne first each step dist show ?thesis by blast
qed




lemma dated_replicate: "dated ds (replicate (length ds) [t]) = map (\<lambda>d. (d, t)) ds"
  by (induction ds) (simp_all add: dated_Cons)

lemma example_data_closed:
  "example_data = numbered_records 1 (map (\<lambda>d. (d, example_txn)) dates)"
proof -
  from example_data_eq obtain blocks where l: "length blocks = length dates"
    and b: "example_data = numbered_records 1 (dated dates blocks)"
    and c: "\<And>i. i < length dates \<Longrightarrow> \<exists>gi. int (length (blocks ! i))
                 = max 1 (fst (np_poisson example_sampler (poisson_mean (dates ! i)) gi))"
    and s: "\<And>ts t. ts \<in> set blocks \<Longrightarrow> t \<in> set ts
           \<Longrightarrow> \<exists>gi go. sample_transaction example_sampler gi = Inr (t, go)"
    by - (erule generate_sales_data_Inr, rule that; assumption)
  have "blocks ! i = [example_txn]" if "i < length dates" for i
  proof -
    from c [OF that] have "length (blocks ! i) = 1" by auto
    then obtain t where t: "blocks ! i = [t]"
      by (cases "blocks ! i") auto
    from that l have "blocks ! i \<in> set blocks" by simp
    from s [OF this, of t] t obtain gi go where
      "sample_transaction example_sampler gi = Inr (t, go)" by auto
    with t show ?thesis by (simp add: example_transaction)
  qed
  with l have "blocks = replicate (length dates) [example_txn]"
    by (simp add: list_eq_iff_nth_eq)
  then show ?thesis
    unfolding b by (simp only: dated_replicate)
qed

lemma length_example_data: "length example_data = 1096"
  by (simp add: example_data_closed length_dates)

lemma example_data_nth:
  "i < 1096 \<Longrightarrow> example_data ! i = create_record (i + 1) (dates ! i) example_txn"
  by (simp add: example_data_closed numbered_records_nth length_dates)


lemma str_nat_step: "10 \<le> n \<Longrightarrow> str_nat n = str_nat (n div 10) @ [digit_char (n mod 10)]"
  by (simp add: str_nat.simps [of n])

lemma strftime_start: "strftime_Ymd start_date = ''2022-01-01''"
  by (simp add: strftime_Ymd_def start_date_def format_0d_def str_nat_step str_nat_digit
      digit_char_def)

lemma dates_nth_0: "dates ! 0 = start_date"
  by (simp add: dates_eq numeral_eq_Suc)

theorem order_ids_sequential_witness:
  "generate_sales_data example_sampler (np_seed example_sampler 42)
     = Inr (example_data,
            snd (projr (generate_sales_data example_sampler (np_seed example_sampler 42))))
   \<and> (0::nat) < length example_data \<and> (0::nat) + 1 < length example_data
   \<and> row_get (example_data ! 0) ''Order_ID'' = Some (PyStr ''ORD_000001'')
   \<and> order_number (example_data ! 0) = Some 1
   \<and> order_number (example_data ! (0 + 1)) = Some 2"
proof -
  note t = order_ids_sequential [OF example_data_eq]
  have l: "(0::nat) < length example_data" "(0::nat) + 1 < length example_data"
    by (simp_all add: length_example_data)
  from t l(1) have a: "row_get (example_data ! 0) ''Order_ID''
      = Some (PyStr (''ORD_'' @ format_0d 6 (0 + 1)))"
    and b: "order_number (example_data ! 0) = Some (0 + 1)"
    by blast+
  from t l(2) have "order_number (example_data ! (0 + 1))
      = map_option Suc (order_number (example_data ! 0))"
    by blast
  with a b l example_data_eq show ?thesis
    by (simp add: format_6_1)
qed


section \<open>The daily numbers of transactions\<close>

lemma date_column_block:
  "map (\<lambda>r. row_get r ''Date'') (numbered_records k (map (Pair d) ts))
     = replicate (length ts) (Some (PyStr (strftime_Ymd d)))"
  by (induction ts arbitrary: k) (simp_all add: numbered_records_Cons row_get_create_record)

lemma date_column:
  "length blocks = length ds \<Longrightarrow>
   map (\<lambda>r. row_get r ''Date'') (numbered_records k (dated ds blocks))
     = concat (map2 (\<lambda>d ts. replicate (length ts) (Some (PyStr (strftime_Ymd d)))) ds blocks)"
proof (induction ds arbitrary: blocks k)
  case Nil
  then show ?case by simp
next
  case (Cons d ds)
  then obtain ts bs where b: "blocks = ts # bs" and l: "length bs = length ds"
    by (cases blocks) auto
  show ?case
    using Cons.IH [OF l] by (simp add: b dated_Cons numbered_records_append date_column_block)
qed

lemma dated_nth_mem:
  "length blocks = length ds \<Longrightarrow> i < length ds \<Longrightarrow> t \<in> set (blocks ! i)
     \<Longrightarrow> (ds ! i, t) \<in> set (dated ds blocks)"
proof (induction ds arbitrary: blocks i)
  case Nil
  then show ?case by simp
next
  case (Cons d ds)
  then obtain ts bs where b: "blocks = ts # bs" and l: "length bs = length ds"
    by (cases blocks) auto
  show ?case
  proof (cases i)
    case 0
    with Cons.prems show ?thesis by (auto simp: b dated_Cons)
  next
    case (Suc j)
    with Cons.prems Cons.IH [OF l] show ?thesis by (auto simp: b dated_Cons)
  qed
qed

lemma numbered_records_date_mem:
  "(d, t) \<in> set dts \<Longrightarrow>
     \<exists>r\<in>set (numbered_records k dts). row_get r ''Date'' = Some (PyStr (strftime_Ymd d))"
proof (induction dts arbitrary: k)
  case Nil
  then show ?case by simp
next
  case (Cons x dts)
  obtain d' t' where x: "x = (d', t')" by (cases x)
  from Cons.prems consider "(d, t) = (d', t')" | "(d, t) \<in> set dts" by (auto simp: x)
  then show ?case
  proof cases
    case 1
    then show ?thesis by (simp add: x numbered_records_Cons row_get_create_record)
  next
    case 2
    from Cons.IH [OF 2, of "Suc k"] show ?thesis
      by (auto simp: x numbered_records_Cons)
  qed
qed

lemma int_sum_list_length:
  "int (sum_list (map length xss)) = sum_list (map (\<lambda>xs. int (length xs)) xss)"
  by (induction xss) simp_all

text \<open>
  C3: the dates of the run are the consecutive days from the start date to the end date.
  The number of transactions of each of them is the maximum of 1 and a Poisson draw with
  the mean of that date; the records come day by day, as many for each date as its
  number; so every date appears in a record, and the number of records is the sum of
  the daily numbers.
\<close>

theorem daily_counts:
  assumes "generate_sales_data S g = Inr (data, g')"
  shows "map toordinal dates = [toordinal start_date ..< Suc (toordinal end_date)] \<and>
         (\<exists>counts. length counts = length dates \<and>
           (\<forall>i<length dates. \<exists>gi.
              counts ! i = max 1 (fst (np_poisson S (poisson_mean (dates ! i)) gi))) \<and>
           map (\<lambda>r. row_get r ''Date'') data
             = concat (map2 (\<lambda>d n. replicate (nat n) (Some (PyStr (strftime_Ymd d))))
                 dates counts) \<and>
           int (length data) = sum_list counts \<and>
           (\<forall>d\<in>set dates. \<exists>r\<in>set data. row_get r ''Date'' = Some (PyStr (strftime_Ymd d))))"
proof -
  have "toordinal start_date + 1096 = Suc (toordinal end_date)"
    by (simp add: toordinal_start toordinal_end)
  with toordinal_dates
  have 0: "map toordinal dates = [toordinal start_date ..< Suc (toordinal end_date)]"
    by (simp only:)
  from assms obtain blocks where l: "length blocks = length dates"
    and b: "data = numbered_records 1 (dated dates blocks)"
    and c: "\<And>i. i < length dates \<Longrightarrow> \<exists>gi. int (length (blocks ! i))
                 = max 1 (fst (np_poisson S (poisson_mean (dates ! i)) gi))"
    by - (erule generate_sales_data_Inr, rule that; assumption)
  define counts where "counts = map (\<lambda>ts. int (length ts)) blocks"
  have 1: "length counts = length dates" by (simp add: counts_def l)
  have 2: "\<forall>i<length dates. \<exists>gi.
              counts ! i = max 1 (fst (np_poisson S (poisson_mean (dates ! i)) gi))"
    using c l by (simp add: counts_def)
  have 3: "map (\<lambda>r. row_get r ''Date'') data
             = concat (map2 (\<lambda>d n. replicate (nat n) (Some (PyStr (strftime_Ymd d))))
                 dates counts)"
    unfolding b date_column [OF l] counts_def
    by (simp add: zip_map2 comp_def split_def)
  have "length data = sum_list (map length blocks)"
    unfolding b by (simp add: length_dated [OF l])
  then have 4: "int (length data) = sum_list counts"
    by (simp add: counts_def int_sum_list_length)
  have 5: "\<forall>d\<in>set dates. \<exists>r\<in>set data. row_get r ''Date'' = Some (PyStr (strftime_Ymd d))"
  proof
    fix d assume "d \<in> set dates"
    then obtain i where i: "i < length dates" "d = dates ! i"
      by (auto simp: in_set_conv_nth)
    from c [OF i(1)] have "blocks ! i \<noteq> []" by auto
    then obtain t where "t \<in> set (blocks ! i)" by (cases "blocks ! i") auto
    from dated_nth_mem [OF l i(1) this] have "(d, t) \<in> set (dated dates blocks)"
      by (simp add: i(2))
    from numbered_records_date_mem [OF this, of 1]
    show "\<exists>r\<in>set data. row_get r ''Date'' = Some (PyStr (strftime_Ymd d))"
      by (simp add: b)
  qed
  from 1 2 3 4 5 have "\<exists>counts. length counts = length dates \<and>
           (\<forall>i<length dates. \<exists>gi.
              counts ! i = max 1 (fst (np_poisson S (poisson_mean (dates ! i)) gi))) \<and>
           map (\<lambda>r. row_get r ''Date'') data
             = concat (map2 (\<lambda>d n. replicate (nat n) (Some (PyStr (strftime_Ymd d))))
                 dates counts) \<and>
           int (length data) = sum_list counts \<and>
           (\<forall>d\<in>set dates. \<exists>r\<in>set data. row_get r ''Date'' = Some (PyStr (strftime_Ymd d)))"
    by blast
  with 0 show ?thesis by (rule conjI)
qed

theorem daily_counts_witness:
  "generate_sales_data example_sampler (np_seed example_sampler 42)
     = Inr (example_data,
            snd (projr (generate_sales_data example_sampler (np_seed example_sampler 42))))
   \<and> (0::nat) < length dates \<and> dates ! 0 = start_date \<and> start_date \<in> set dates
   \<and> max 1 (fst (np_poisson example_sampler (poisson_mean (dates ! 0)) 42)) = 1
   \<and> hd example_data \<in> set example_data
   \<and> row_get (hd example_data) ''Date'' = Some (PyStr ''2022-01-01'')
   \<and> length example_data = 1096"
proof -
  from daily_counts [OF example_data_eq] obtain counts where
    l: "length counts = length dates"
    and c: "\<forall>i<length dates. \<exists>gi.
              counts ! i = max 1 (fst (np_poisson example_sampler (poisson_mean (dates ! i)) gi))"
    and n: "int (length example_data) = sum_list counts"
    by blast
  from c have "\<forall>i<length dates. counts ! i = 1" by simp
  with l have "counts = replicate (length dates) 1"
    by (simp add: list_eq_iff_nth_eq)
  with n have len: "length example_data = 1096"
    by (simp add: sum_list_replicate length_dates)
  have d0: "(0::nat) < length dates" by (simp add: length_dates)
  then have m: "start_date \<in> set dates"
    using nth_mem [of 0 dates] by (simp add: dates_nth_0)
  have r: "row_get (hd example_data) ''Date'' = Some (PyStr ''2022-01-01'')"
    by (simp add: hd_example_data_eq row_get_create_record strftime_start)
  from example_data_eq d0 dates_nth_0 m hd_example_data r len show ?thesis by simp
qed


section \<open>The product summary and the final revenue\<close>


lemma generated_values:
  "str_value (create_record k d t) ''Product'' = product t"
  "float_value (create_record k d t) ''Final_Revenue'' = py_round (final_revenue t) 2"
  by (simp_all add: str_value_def float_value_def row_get_create_record)

lemma product_data_row:
  assumes "p \<in> set (map (\<lambda>r. str_value r ''Product'') df)"
  shows "\<exists>s\<in>set (product_data df).
           row_get s ''Product'' = Some (PyStr p) \<and>
           row_get s ''Total_Revenue''
             = Some (PyFloat (py_round (sum_list (map (\<lambda>r. float_value r ''Final_Revenue'')
                  (filter (\<lambda>r. str_value r ''Product'' = p) df))) 2)) \<and>
           (\<forall>s'\<in>set (product_data df). row_get s' ''Product'' = Some (PyStr p) \<longrightarrow> s' = s)"
proof -
  let ?keys = "sort (remdups (map (\<lambda>r. str_value r ''Product'') df))"
  let ?row = "\<lambda>(p, grp).
        [(''Product'', PyStr p),
         (''Total_Revenue'',
            PyFloat (py_round (sum_list (map (\<lambda>r. float_value r ''Final_Revenue'') grp)) 2)),
         (''Total_Quantity'', PyInt (sum_list (map (\<lambda>r. int_value r ''Quantity'') grp))),
         (''Total_Orders'', PyInt (int (length grp))),
         (''Avg_Margin'',
            PyFloat (py_round (mean (map (\<lambda>r. float_value r ''Final_Margin'') grp)) 2)),
         (''Avg_Satisfaction'',
            PyFloat (py_round (mean (map (\<lambda>r. float_value r ''Customer_Satisfaction'') grp)) 2)),
         (''Return_Rate'',
            PyFloat (py_round
              (of_nat (length (filter (\<lambda>r. bool_value r ''Is_Returned'') grp))
                 / of_nat (length grp) * 100) 2))]"
  let ?grp = "\<lambda>k. (k, filter (\<lambda>r. str_value r ''Product'' = k) df)"
  have pd: "product_data df = map (\<lambda>k. ?row (?grp k)) ?keys"
    by (simp add: product_data_def groupby_def comp_def)
  have key: "row_get (?row (?grp k)) ''Product'' = Some (PyStr k)" for k
    by (simp add: row_get_def)
  have tot: "row_get (?row (?grp k)) ''Total_Revenue''
      = Some (PyFloat (py_round (sum_list (map (\<lambda>r. float_value r ''Final_Revenue'')
                  (filter (\<lambda>r. str_value r ''Product'' = k) df))) 2))" for k
    by (simp add: row_get_def)
  from assms have "p \<in> set ?keys" by simp
  then have mem: "?row (?grp p) \<in> set (product_data df)"
    unfolding pd by (simp only: set_map) (rule imageI)
  have uniq: "s' = ?row (?grp p)"
    if "s' \<in> set (product_data df)" "row_get s' ''Product'' = Some (PyStr p)" for s'
  proof -
    from that(1) obtain k where "s' = ?row (?grp k)" unfolding pd by auto
    with that(2) key [of k] show ?thesis by simp
  qed
  from mem key [of p] tot [of p] uniq show ?thesis by blast
qed


lemma sum_list_cents:
  assumes "\<forall>x\<in>set xs. \<exists>n::int. f x = of_int n / 100"
  shows "\<exists>m::int. sum_list (map f xs) = (of_int m / 100 :: real)"
  using assms
proof (induction xs)
  case Nil
  have "(0::real) = of_int 0 / 100" by simp
  then show ?case by (simp only: list.map sum_list.Nil) (rule exI)
next
  case (Cons x xs)
  then obtain n m :: int where "f x = of_int n / 100" "sum_list (map f xs) = of_int m / 100"
    by auto
  then have "sum_list (map f (x # xs)) = of_int (n + m) / 100"
    by (simp add: add_divide_distrib)
  then show ?case ..
qed

lemma py_round_2_cents: "\<exists>n::int. py_round x 2 = of_int n / 100"
  by (simp add: py_round_def)

text \<open>
  C9: for the product of every record of a run, the product table has exactly one row, and
  its total revenue is the sum of the final revenue column over the records of that
  product, rounded to two decimals; the rounding does not change the sum, which is a
  number of cents.
\<close>

theorem product_total_revenue:
  assumes "generate_sales_data S g = Inr (data, g')" and "r \<in> set data"
  shows "\<exists>p. row_get r ''Product'' = Some (PyStr p) \<and>
           (\<exists>s\<in>set (product_data data).
              row_get s ''Product'' = Some (PyStr p) \<and>
              row_get s ''Total_Revenue''
                = Some (PyFloat (py_round (revenue_of_product data p) 2)) \<and>
              py_round (revenue_of_product data p) 2 = revenue_of_product data p \<and>
              (\<forall>s'\<in>set (product_data data).
                 row_get s' ''Product'' = Some (PyStr p) \<longrightarrow> s' = s))"
proof -
  have rec: "\<exists>k d t. x = create_record k d t" if "x \<in> set data" for x
    using generated_row [OF assms(1) that] by metis
  from rec [OF assms(2)] obtain k d t where r: "r = create_record k d t" by blast
  define p where "p = product t"
  have rp: "row_get r ''Product'' = Some (PyStr p)"
    by (simp add: r p_def row_get_create_record)
  have same: "(str_value x ''Product'' = p) = (row_get x ''Product'' = Some (PyStr p))"
    if "x \<in> set data" for x
    using rec [OF that] by (auto simp: generated_values row_get_create_record)
  then have flt: "filter (\<lambda>x. str_value x ''Product'' = p) data
      = filter (\<lambda>x. row_get x ''Product'' = Some (PyStr p)) data"
    by (intro filter_cong refl) simp
  have "str_value r ''Product'' = p" by (simp add: r p_def generated_values)
  with assms(2) have "p \<in> set (map (\<lambda>r. str_value r ''Product'') data)"
    by (auto simp: image_iff)
  from product_data_row [OF this] obtain s where s: "s \<in> set (product_data data)"
    "row_get s ''Product'' = Some (PyStr p)"
    "row_get s ''Total_Revenue''
       = Some (PyFloat (py_round (revenue_of_product data p) 2))"
    "\<forall>s'\<in>set (product_data data). row_get s' ''Product'' = Some (PyStr p) \<longrightarrow> s' = s"
    unfolding flt revenue_of_product_def by blast
  have "\<forall>x\<in>set (filter (\<lambda>x. row_get x ''Product'' = Some (PyStr p)) data).
          \<exists>n::int. float_value x ''Final_Revenue'' = of_int n / 100"
  proof
    fix x assume "x \<in> set (filter (\<lambda>x. row_get x ''Product'' = Some (PyStr p)) data)"
    then have "x \<in> set data" by simp
    from rec [OF this] obtain k' d' t' where "x = create_record k' d' t'" by blast
    then show "\<exists>n::int. float_value x ''Final_Revenue'' = of_int n / 100"
      by (simp only: generated_values py_round_2_cents)
  qed
  from sum_list_cents [OF this] obtain m :: int where
    "revenue_of_product data p = of_int m / 100"
    unfolding revenue_of_product_def by blast
  then have "py_round (revenue_of_product data p) 2 = revenue_of_product data p"
    by (simp only: py_round_cents)
  with rp s show ?thesis by blast
qed


lemma example_rows:
  assumes "x \<in> set example_data"
  obtains k d where "x = create_record k d example_txn"
proof -
  from assms obtain k d t where "x = create_record k d t"
    and "(d, t) \<in> set (map (\<lambda>d. (d, example_txn)) dates)"
    unfolding example_data_closed by (rule numbered_records_mem)
  then show thesis using that by auto
qed

lemma map_const_on:
  assumes "\<forall>x\<in>set xs. f x = c"
  shows "map f xs = replicate (length xs) c"
  using assms by (induction xs) simp_all

lemma example_products:
  "map (\<lambda>r. str_value r ''Product'') example_data = replicate 1096 ''Laptop''"
proof -
  have "\<forall>x\<in>set example_data. str_value x ''Product'' = ''Laptop''"
  proof
    fix x assume "x \<in> set example_data"
    then obtain k d where "x = create_record k d example_txn" by (rule example_rows)
    then show "str_value x ''Product'' = ''Laptop''"
      by (simp add: generated_values) (simp add: example_txn_def)
  qed
  from map_const_on [OF this] show ?thesis by (simp only: length_example_data)
qed

lemma example_revenue_of_product:
  "revenue_of_product example_data ''Laptop'' = 1047841.76"
proof -
  have all: "\<forall>x\<in>set example_data. row_get x ''Product'' = Some (PyStr ''Laptop'') \<and>
      float_value x ''Final_Revenue'' = 956.06"
  proof
    fix x assume "x \<in> set example_data"
    then obtain k d where x: "x = create_record k d example_txn" by (rule example_rows)
    have "row_get x ''Product'' = Some (PyStr ''Laptop'')"
      unfolding x by (simp add: row_get_create_record) (simp add: example_txn_def)
    moreover have "float_value x ''Final_Revenue'' = 956.06"
      unfolding x by (simp add: generated_values example_rounded)
    ultimately show "row_get x ''Product'' = Some (PyStr ''Laptop'') \<and>
      float_value x ''Final_Revenue'' = 956.06" ..
  qed
  then have "filter (\<lambda>r. row_get r ''Product'' = Some (PyStr ''Laptop'')) example_data
      = example_data"
    by (simp add: filter_id_conv)
  moreover from all have "map (\<lambda>r. float_value r ''Final_Revenue'') example_data
      = replicate (length example_data) 956.06"
    by (intro map_const_on) simp
  ultimately show ?thesis
    by (simp add: revenue_of_product_def sum_list_replicate length_example_data)
qed

lemma remdups_replicate_Suc: "remdups (replicate (Suc n) x) = [x]"
  by (induction n) simp_all

lemma example_product_data_single: "\<exists>s. product_data example_data = [s]"
proof -
  have "(1096::nat) = Suc 1095" by simp
  then have "remdups (replicate 1096 ''Laptop'') = [''Laptop'']"
    by (simp only: remdups_replicate_Suc)
  then have "length (product_data example_data) = 1"
    by (simp add: product_data_def groupby_def example_products)
  then show ?thesis
    by (cases "product_data example_data") auto
qed

theorem product_total_revenue_witness:
  "generate_sales_data example_sampler (np_seed example_sampler 42)
     = Inr (example_data,
            snd (projr (generate_sales_data example_sampler (np_seed example_sampler 42))))
   \<and> hd example_data \<in> set example_data
   \<and> row_get (hd example_data) ''Product'' = Some (PyStr ''Laptop'')
   \<and> revenue_of_product example_data ''Laptop'' = 1047841.76
   \<and> hd (product_data example_data) \<in> set (product_data example_data)
   \<and> row_get (hd (product_data example_data)) ''Product'' = Some (PyStr ''Laptop'')
   \<and> row_get (hd (product_data example_data)) ''Total_Revenue'' = Some (PyFloat 1047841.76)"
proof -
  have hp: "row_get (hd example_data) ''Product'' = Some (PyStr ''Laptop'')"
    by (simp add: hd_example_data_eq row_get_create_record) (simp add: example_txn_def)
  from product_total_revenue [OF example_data_eq hd_example_data] hp
  obtain s where s: "s \<in> set (product_data example_data)"
    "row_get s ''Product'' = Some (PyStr ''Laptop'')"
    "row_get s ''Total_Revenue''
       = Some (PyFloat (py_round (revenue_of_product example_data ''Laptop'') 2))"
    "py_round (revenue_of_product example_data ''Laptop'') 2
       = revenue_of_product example_data ''Laptop''"
    by auto
  from example_product_data_single s(1) have "hd (product_data example_data) = s"
    by auto
  with s example_revenue_of_product example_data_eq hd_example_data hp show ?thesis
    by simp
qed


section \<open>Reproducibility\<close>


end
